theory Spec2Isabelle
  imports Complex_Main
begin

section \<open>Numbers\<close>

text \<open>
  JavaScript numbers are IEEE doubles. The model computes with exact reals: rounding and
  overflow of finite values are outside it. The two non-finite outcomes that the carousel
  setup tests for (\<^verbatim>\<open>NaN\<close> and the infinities) are kept as values of their own,
  because \<^verbatim>\<open>parseFloat\<close> of a computed style such as \<^verbatim>\<open>normal\<close> yields \<^verbatim>\<open>NaN\<close>.
\<close>

datatype jsnum = Fin real | NaN | PosInf | NegInf

fun js_add :: "jsnum \<Rightarrow> jsnum \<Rightarrow> jsnum" where
  "js_add (Fin a) (Fin b) = Fin (a + b)"
| "js_add NaN _ = NaN"
| "js_add _ NaN = NaN"
| "js_add PosInf NegInf = NaN"
| "js_add NegInf PosInf = NaN"
| "js_add PosInf _ = PosInf"
| "js_add _ PosInf = PosInf"
| "js_add NegInf _ = NegInf"
| "js_add _ NegInf = NegInf"

text \<open>\<^verbatim>\<open>!x\<close> on a number: true for zero and for \<^verbatim>\<open>NaN\<close>.\<close>

fun js_not :: "jsnum \<Rightarrow> bool" where
  "js_not (Fin r) = (r = 0)"
| "js_not NaN = True"
| "js_not PosInf = False"
| "js_not NegInf = False"

fun isFinite :: "jsnum \<Rightarrow> bool" where
  "isFinite (Fin r) = True"
| "isFinite NaN = False"
| "isFinite PosInf = False"
| "isFinite NegInf = False"

text \<open>\<^verbatim>\<open>Math.round\<close> rounds to the nearest integer, halves upwards.\<close>

definition Math_round :: "real \<Rightarrow> real" where
  "Math_round x = of_int \<lfloor>x + 1 / 2\<rfloor>"

section \<open>Carousel loop\<close>

subsection \<open>Setup: width of the original set\<close>

text \<open>
  \<^verbatim>\<open>originalItems.forEach((item, i) => { originalTotalWidth += rect.width;
  if (i < originalItems.length - 1) originalTotalWidth += gap; })\<close>.
  The widths come from bounding boxes and are finite; the gap is the result of
  \<^verbatim>\<open>parseFloat\<close>. The list argument holds the items not yet visited,
  \<open>acc\<close> the running value of \<^verbatim>\<open>originalTotalWidth\<close>.
\<close>

fun sum_widths :: "jsnum \<Rightarrow> jsnum \<Rightarrow> real list \<Rightarrow> jsnum" where
  "sum_widths gap acc [] = acc"
| "sum_widths gap acc [w] = js_add acc (Fin w)"
| "sum_widths gap acc (w # v # ws) =
     sum_widths gap (js_add (js_add acc (Fin w)) gap) (v # ws)"

text \<open>The defensive fallback: \<^verbatim>\<open>if (!w || !isFinite(w)) w = 1000\<close>.\<close>

definition fallback_width :: "jsnum \<Rightarrow> jsnum" where
  "fallback_width w = (if js_not w \<or> \<not> isFinite w then Fin 1000 else w)"

definition originalTotalWidth_of :: "real list \<Rightarrow> jsnum \<Rightarrow> jsnum" where
  "originalTotalWidth_of widths gap = fallback_width (sum_widths gap (Fin 0) widths)"

text \<open>The finite value of a number; only used on values known to be finite.\<close>

fun fin_val :: "jsnum \<Rightarrow> real" where
  "fin_val (Fin r) = r"
| "fin_val NaN = 0"
| "fin_val PosInf = 0"
| "fin_val NegInf = 0"

subsection \<open>The frame callback\<close>

text \<open>
  The closure variables of the loop: \<^verbatim>\<open>px\<close>, \<^verbatim>\<open>last\<close>, \<^verbatim>\<open>running\<close>, the two
  constants \<^verbatim>\<open>pxPerSecond\<close> and \<^verbatim>\<open>originalTotalWidth\<close>, and the horizontal
  translation last written to the track's transform.
\<close>

record carousel =
  px :: real
  last :: real
  running :: bool
  pxPerSecond :: real
  originalTotalWidth :: real
  translate_x :: real

definition carousel_init :: "real list \<Rightarrow> jsnum \<Rightarrow> real \<Rightarrow> carousel" where
  "carousel_init widths gap now0 =
     (let w = fin_val (originalTotalWidth_of widths gap) in
      \<lparr> px = 0, last = now0, running = True,
        pxPerSecond = max 30 (Math_round (w / 6)),
        originalTotalWidth = w, translate_x = 0 \<rparr>)"

definition step :: "real \<Rightarrow> carousel \<Rightarrow> carousel" where
  "step now c =
     (let dt = (now - last c) / 1000;
          c1 = c\<lparr>last := now\<rparr>
      in if running c1 then
           (let p = px c1 + pxPerSecond c1 * dt;
                p' = (if p \<ge> originalTotalWidth c1 then p - originalTotalWidth c1 else p)
            in c1\<lparr>px := p', translate_x := - p'\<rparr>)
         else c1)"

text \<open>A run of frames, given by their timestamps in order.\<close>

fun steps :: "real list \<Rightarrow> carousel \<Rightarrow> carousel" where
  "steps [] c = c"
| "steps (now # nows) c = steps nows (step now c)"

definition pause :: "carousel \<Rightarrow> carousel" where
  "pause c = c\<lparr>running := False\<rparr>"

definition resume :: "carousel \<Rightarrow> carousel" where
  "resume c = c\<lparr>running := True\<rparr>"

text \<open>
  The hypothesis of the modulo property: every frame interval is positive and advances
  the offset by less than one set width.
\<close>

fun frames_small :: "real \<Rightarrow> real \<Rightarrow> real \<Rightarrow> real list \<Rightarrow> bool" where
  "frames_small speed w t [] = True"
| "frames_small speed w t (now # nows) =
     (0 < (now - t) / 1000 \<and> speed * ((now - t) / 1000) < w \<and> frames_small speed w now nows)"

text \<open>Remainder of a real modulo a positive real.\<close>

definition rmod :: "real \<Rightarrow> real \<Rightarrow> real" where
  "rmod x s = x - s * of_int \<lfloor>x / s\<rfloor>"

text \<open>
  What the page can measure: bounding-box widths are finite and non-negative, and the gap
  parsed from the computed style is a non-negative length or \<^verbatim>\<open>NaN\<close>.
\<close>

fun nonneg_or_nan :: "jsnum \<Rightarrow> bool" where
  "nonneg_or_nan (Fin r) = (0 \<le> r)"
| "nonneg_or_nan NaN = True"
| "nonneg_or_nan PosInf = False"
| "nonneg_or_nan NegInf = False"

section \<open>Theme\<close>

text \<open>
  The theme toggle button, as \<^verbatim>\<open>updateTheme\<close> sees it: absent, present without a
  child of class \<^verbatim>\<open>theme-toggle__icon\<close>, or present with the icon's text. The two
  texts are a sun (shown in the dark theme) and a moon.
\<close>

datatype icon = Sun | Moon

datatype toggle_button = NoButton | ButtonWithoutIcon | Button icon

record page =
  currentTheme :: string
  data_theme :: "string option"
  themeToggle :: toggle_button
  localStorage :: "string \<rightharpoonup> string"

text \<open>
  A call either returns or throws; both leave a state behind. The only exception in
  these functions is the \<^verbatim>\<open>TypeError\<close> of writing a property of \<^verbatim>\<open>null\<close>.
\<close>

datatype 'a completion = Normal 'a | TypeError 'a

definition updateTheme :: "page \<Rightarrow> page completion" where
  "updateTheme p =
     (let p1 = p\<lparr>data_theme := Some (currentTheme p)\<rparr> in
      case themeToggle p1 of
        NoButton \<Rightarrow> Normal p1
      | ButtonWithoutIcon \<Rightarrow> TypeError p1
      | Button _ \<Rightarrow>
          Normal (p1\<lparr>themeToggle := Button (if currentTheme p1 = ''dark'' then Sun else Moon)\<rparr>))"

definition toggleTheme :: "page \<Rightarrow> page completion" where
  "toggleTheme p =
     (let p1 = p\<lparr>currentTheme := (if currentTheme p = ''dark'' then ''light'' else ''dark'')\<rparr> in
      case updateTheme p1 of
        TypeError q \<Rightarrow> TypeError q
      | Normal q \<Rightarrow> Normal (q\<lparr>localStorage := (localStorage q)(''theme'' \<mapsto> currentTheme q)\<rparr>))"

text \<open>A page in the dark theme, with its toggle button, nothing stored yet.\<close>

definition dark_page :: page where
  "dark_page = \<lparr> currentTheme = ''dark'', data_theme = Some ''dark'',
                  themeToggle = Button Sun, localStorage = Map.empty \<rparr>"

section \<open>Form validation\<close>

text \<open>
  Strings are lists of 8-bit characters, so the model covers field values in the
  Latin-1 range. There, the white space of \<^verbatim>\<open>String.prototype.trim\<close> and of the
  regular expression class \<^verbatim>\<open>\s\<close> is the same set: tab, line feed, vertical tab, form
  feed, carriage return, space and no-break space.
\<close>

definition is_space :: "char \<Rightarrow> bool" where
  "is_space c = (of_char c \<in> set [9, 10, 11, 12, 13, 32, 160 :: nat])"

definition trim :: "string \<Rightarrow> string" where
  "trim s = rev (dropWhile is_space (rev (dropWhile is_space s)))"

text \<open>The character class \<^verbatim>\<open>[^\s@]\<close>.\<close>

definition not_space_or_at :: "char \<Rightarrow> bool" where
  "not_space_or_at c = (\<not> is_space c \<and> c \<noteq> CHR ''@'')"

text \<open>
  \<^verbatim>\<open>/^[^\s@]+@[^\s@]+\.[^\s@]+$/.test(s)\<close>: the whole string splits, at some position
  \<open>i\<close> holding \<^verbatim>\<open>@\<close> and some later position \<open>j\<close> holding a dot, into three
  non-empty runs of the class.
\<close>

definition emailRegex_test :: "string \<Rightarrow> bool" where
  "emailRegex_test s =
     list_ex (\<lambda>i. list_ex (\<lambda>j.
         0 < i \<and> i + 1 < j \<and> j + 1 < length s
         \<and> s ! i = CHR ''@'' \<and> s ! j = CHR ''.''
         \<and> list_all not_space_or_at (take i s)
         \<and> list_all not_space_or_at (take (j - (i + 1)) (drop (i + 1) s))
         \<and> list_all not_space_or_at (drop (j + 1) s))
       [0..<length s]) [0..<length s]"

text \<open>
  The \<^verbatim>\<open>switch\<close> of \<^verbatim>\<open>validateField\<close>: from the field's name and its raw value to
  \<^verbatim>\<open>isValid\<close> and \<^verbatim>\<open>errorMessage\<close>.
\<close>

definition validateField_check :: "string \<Rightarrow> string \<Rightarrow> bool \<times> string" where
  "validateField_check fieldName raw =
     (let v = trim raw in
      if fieldName = ''name'' then
        (if v = [] then (False, ''Name is required'')
         else if length v < 2 then (False, ''Name must be at least 2 characters'')
         else (True, []))
      else if fieldName = ''email'' then
        (if v = [] then (False, ''Email is required'')
         else if \<not> emailRegex_test v then (False, ''Please enter a valid email address'')
         else (True, []))
      else if fieldName = ''message'' then
        (if v = [] then (False, ''Message is required'')
         else if length v < 10 then (False, ''Message must be at least 10 characters'')
         else (True, []))
      else (True, []))"

text \<open>
  The form's controls (text inputs and text areas, in document order) and the elements
  that display errors, looked up by the id \<^verbatim>\<open><name>-error\<close>.
\<close>

record field =
  fname :: string
  fvalue :: string
  fdefault :: string
  error_class :: bool

record error_elem =
  textContent :: string
  show_class :: bool

record form =
  controls :: "field list"
  error_elems :: "string \<rightharpoonup> error_elem"
  success_notices :: nat

definition showFieldError :: "nat \<Rightarrow> string \<Rightarrow> bool \<Rightarrow> form \<Rightarrow> form" where
  "showFieldError ix message hasError fm =
     (let f = controls fm ! ix;
          eid = fname f @ ''-error'';
          fm1 = fm\<lparr>controls := (controls fm)[ix := f\<lparr>error_class := hasError\<rparr>]\<rparr>
      in case error_elems fm1 eid of
           None \<Rightarrow> fm1
         | Some el \<Rightarrow>
             fm1\<lparr>error_elems := (error_elems fm1)
                    (eid \<mapsto> (if hasError then \<lparr>textContent = message, show_class = True\<rparr>
                              else \<lparr>textContent = [], show_class = False\<rparr>))\<rparr>)"

text \<open>\<^verbatim>\<open>validateField\<close> on the control at position \<open>ix\<close> of the form.\<close>

definition validateField :: "nat \<Rightarrow> form \<Rightarrow> bool \<times> form" where
  "validateField ix fm =
     (let f = controls fm ! ix;
          (isValid, errorMessage) = validateField_check (fname f) (fvalue f);
          fm1 = fm\<lparr>controls := (controls fm)[ix := f\<lparr>error_class := False\<rparr>]\<rparr>
      in (isValid, showFieldError ix errorMessage (\<not> isValid) fm1))"

text \<open>
  \<^verbatim>\<open>Object.keys(Object.fromEntries(new FormData(form)))\<close>: the names of the controls,
  each once, empty names left out. Each key is then resolved with
  \<^verbatim>\<open>querySelector('[name="key"]')\<close> to the first control of that name.
\<close>

fun form_keys :: "string list \<Rightarrow> string list \<Rightarrow> string list" where
  "form_keys seen [] = []"
| "form_keys seen (n # ns) =
     (if n = [] \<or> n \<in> set seen then form_keys seen ns else n # form_keys (n # seen) ns)"

fun querySelector_name :: "string \<Rightarrow> field list \<Rightarrow> nat \<Rightarrow> nat option" where
  "querySelector_name key [] ix = None"
| "querySelector_name key (f # fs) ix =
     (if fname f = key then Some ix else querySelector_name key fs (Suc ix))"

text \<open>
  The \<^verbatim>\<open>forEach\<close> over the keys. A key without a control would pass \<^verbatim>\<open>null\<close> to
  \<^verbatim>\<open>validateField\<close>, which throws.
\<close>

fun validate_keys :: "string list \<Rightarrow> bool \<times> form \<Rightarrow> (bool \<times> form) completion" where
  "validate_keys [] (isValid, fm) = Normal (isValid, fm)"
| "validate_keys (key # keys) (isValid, fm) =
     (case querySelector_name key (controls fm) 0 of
        None \<Rightarrow> TypeError (isValid, fm)
      | Some ix \<Rightarrow>
          (let (ok, fm1) = validateField ix fm
           in validate_keys keys (if \<not> ok then False else isValid, fm1)))"

definition showSuccessMessage :: "form \<Rightarrow> form" where
  "showSuccessMessage fm = fm\<lparr>success_notices := Suc (success_notices fm)\<rparr>"

definition form_reset :: "form \<Rightarrow> form" where
  "form_reset fm = fm\<lparr>controls := map (\<lambda>f. f\<lparr>fvalue := fdefault f\<rparr>) (controls fm)\<rparr>"

definition handleFormSubmit :: "form \<Rightarrow> form completion" where
  "handleFormSubmit fm =
     (case validate_keys (form_keys [] (map fname (controls fm))) (True, fm) of
        TypeError (isValid, fm1) \<Rightarrow> TypeError fm1
      | Normal (isValid, fm1) \<Rightarrow>
          Normal (if isValid then form_reset (showSuccessMessage fm1) else fm1))"

text \<open>
  The contact form: the controls \<^verbatim>\<open>name\<close>, \<^verbatim>\<open>email\<close> and \<^verbatim>\<open>message\<close> with the
  given values, empty by default, each with its error element, nothing flagged yet.
\<close>

definition contact_form :: "string \<Rightarrow> string \<Rightarrow> string \<Rightarrow> form" where
  "contact_form n e m =
     \<lparr> controls =
         [\<lparr>fname = ''name'', fvalue = n, fdefault = [], error_class = False\<rparr>,
          \<lparr>fname = ''email'', fvalue = e, fdefault = [], error_class = False\<rparr>,
          \<lparr>fname = ''message'', fvalue = m, fdefault = [], error_class = False\<rparr>],
       error_elems =
         [''name-error'' \<mapsto> \<lparr>textContent = [], show_class = False\<rparr>,
          ''email-error'' \<mapsto> \<lparr>textContent = [], show_class = False\<rparr>,
          ''message-error'' \<mapsto> \<lparr>textContent = [], show_class = False\<rparr>],
       success_notices = 0 \<rparr>"

section \<open>Particle field\<close>

subsection \<open>State\<close>

text \<open>
  What a frame reads from its surroundings: \<^verbatim>\<open>Date.now()\<close> in milliseconds, the last
  mouse position, and the window's inner size. \<^verbatim>\<open>Math.random\<close> is a sequence
  \<open>rnd\<close> of numbers together with the count \<open>k\<close> of calls made so far.
\<close>

record env =
  now_ms :: real
  mouse_x :: real
  mouse_y :: real
  innerWidth :: real
  innerHeight :: real

text \<open>
  The four typed arrays of the particle set (flat: three cells per particle in
  \<open>positions\<close>, \<open>velocities\<close> and \<open>colors\<close>), the shader's time uniform and the
  \<^verbatim>\<open>needsUpdate\<close> flag of the position attribute. Cells hold exact reals.
\<close>

record particle_set =
  positions :: "real list"
  velocities :: "real list"
  sizes :: "real list"
  colors :: "real list"
  time_uniform :: real
  needsUpdate :: bool

text \<open>\<^verbatim>\<open>state.particles\<close> is \<^verbatim>\<open>null\<close> until \<^verbatim>\<open>createParticles\<close> has run.\<close>

datatype three = NoParticles | Particles particle_set

subsection \<open>Creation\<close>

text \<open>
  One round of the loop of \<^verbatim>\<open>createParticles\<close>: eight calls of \<^verbatim>\<open>Math.random\<close>, in
  the order of the source, fill the cells of particle \<open>i\<close>.
\<close>

definition create_particle :: "(nat \<Rightarrow> real) \<Rightarrow> nat \<Rightarrow> particle_set \<times> nat \<Rightarrow> particle_set \<times> nat" where
  "create_particle rnd i sk =
     (let ps = fst sk; k = snd sk; i3 = i * 3;
          pos = (positions ps)[i3 := (rnd k - 1 / 2) * 40,
                               i3 + 1 := rnd (k + 1) * 30 - 15,
                               i3 + 2 := (rnd (k + 2) - 1 / 2) * 20];
          vel = (velocities ps)[i3 := (rnd (k + 3) - 1 / 2) * (2 / 100),
                                i3 + 1 := rnd (k + 4) * (3 / 100) + 1 / 100,
                                i3 + 2 := (rnd (k + 5) - 1 / 2) * (15 / 1000)];
          siz = (sizes ps)[i := rnd (k + 6) * 3 + 1];
          colorType = rnd (k + 7);
          col = (if colorType < 33 / 100
                 then (colors ps)[i3 := 1, i3 + 1 := 49 / 100, i3 + 2 := 86 / 100]
                 else if colorType < 66 / 100
                 then (colors ps)[i3 := 49 / 100, i3 + 1 := 91 / 100, i3 + 2 := 1]
                 else (colors ps)[i3 := 1, i3 + 1 := 72 / 100, i3 + 2 := 42 / 100])
      in (ps\<lparr>positions := pos, velocities := vel, sizes := siz, colors := col\<rparr>, k + 8))"

function create_loop ::
  "(nat \<Rightarrow> real) \<Rightarrow> nat \<Rightarrow> nat \<Rightarrow> particle_set \<times> nat \<Rightarrow> particle_set \<times> nat" where
  "create_loop rnd particleCount i sk =
     (if i < particleCount
      then create_loop rnd particleCount (i + 1) (create_particle rnd i sk)
      else sk)"
  by pat_completeness auto
termination
  by (relation "measure (\<lambda>(rnd, particleCount, i, sk). particleCount - i)") auto

text \<open>
  \<^verbatim>\<open>createParticles\<close>: four zero-filled arrays for 400 particles, the loop, and the
  shader material with its time uniform at 0.
\<close>

definition createParticles :: "(nat \<Rightarrow> real) \<Rightarrow> nat \<Rightarrow> particle_set \<times> nat" where
  "createParticles rnd k =
     (let particleCount = 400 in
      create_loop rnd particleCount 0
        (\<lparr> positions = replicate (particleCount * 3) 0,
           velocities = replicate (particleCount * 3) 0,
           sizes = replicate particleCount 0,
           colors = replicate (particleCount * 3) 0,
           time_uniform = 0, needsUpdate = False \<rparr>, k))"

subsection \<open>The per-frame update\<close>

text \<open>
  The statements of the loop body, on a typed array: \<^verbatim>\<open>xs[i] += d\<close>,
  \<^verbatim>\<open>xs[i] -= d\<close>, \<^verbatim>\<open>if (xs[i] > b) xs[i] = v\<close> and
  \<^verbatim>\<open>if (xs[i] < b) xs[i] = v\<close>. A write outside a typed array does nothing, as
  \<open>xs[i := v]\<close> does.
\<close>

definition add_at :: "real list \<Rightarrow> nat \<Rightarrow> real \<Rightarrow> real list" where
  "add_at xs i d = xs[i := xs ! i + d]"

definition sub_at :: "real list \<Rightarrow> nat \<Rightarrow> real \<Rightarrow> real list" where
  "sub_at xs i d = xs[i := xs ! i - d]"

definition set_if_above :: "real list \<Rightarrow> nat \<Rightarrow> real \<Rightarrow> real \<Rightarrow> real list" where
  "set_if_above xs i b v = (if xs ! i > b then xs[i := v] else xs)"

definition set_if_below :: "real list \<Rightarrow> nat \<Rightarrow> real \<Rightarrow> real \<Rightarrow> real list" where
  "set_if_below xs i b v = (if xs ! i < b then xs[i := v] else xs)"

text \<open>
  The body of the loop of \<^verbatim>\<open>animateParticles\<close> for the particle whose first cell is
  \<open>i\<close>, statement by statement on the position array.
\<close>

definition particle_body ::
  "env \<Rightarrow> (nat \<Rightarrow> real) \<Rightarrow> real list \<Rightarrow> real \<Rightarrow> nat \<Rightarrow> real list \<times> nat \<Rightarrow> real list \<times> nat" where
  "particle_body e rnd vel time i pk =
     (let p = add_at (fst pk) i (vel ! i);
          p = add_at p (i + 1) (vel ! (i + 1));
          p = add_at p (i + 2) (vel ! (i + 2));
          p = add_at p i (sin (time + real i * (1 / 100)) * (1 / 100));
          p = add_at p (i + 2) (cos (time + real i * (15 / 1000)) * (8 / 1000));
          mouseInfluence = 3 / 10000;
          p = add_at p i ((mouse_x e - innerWidth e / 2) * mouseInfluence);
          p = sub_at p (i + 1) ((mouse_y e - innerHeight e / 2) * mouseInfluence);
          pk' = (if p ! (i + 1) > 15
                 then (p[i + 1 := - 15,
                         i := (rnd (snd pk) - 1 / 2) * 40,
                         i + 2 := (rnd (snd pk + 1) - 1 / 2) * 20], snd pk + 2)
                 else (p, snd pk));
          p = set_if_above (fst pk') i 20 (- 20);
          p = set_if_below p i (- 20) 20;
          p = set_if_above p (i + 2) 10 (- 10);
          p = set_if_below p (i + 2) (- 10) 10
      in (p, snd pk'))"

text \<open>
  \<^verbatim>\<open>for (let i = 0; i < positions.length; i += 3)\<close>. The length of a typed array
  never changes, so the bound \<open>n\<close> is the length of the position array when the loop
  starts. A read outside a typed array yields \<^verbatim>\<open>undefined\<close> and the sum \<^verbatim>\<open>NaN\<close>,
  which no real stands for: the loop then has no result in the model. The arrays that
  \<^verbatim>\<open>createParticles\<close> builds have the same length, a multiple of three, so every
  read is in range.
\<close>

function animate_loop ::
  "env \<Rightarrow> (nat \<Rightarrow> real) \<Rightarrow> real list \<Rightarrow> real \<Rightarrow> nat \<Rightarrow> nat \<Rightarrow> real list \<times> nat
     \<Rightarrow> (real list \<times> nat) option" where
  "animate_loop e rnd vel time n i pk =
     (if i < n then
        (if i + 2 < n \<and> i + 2 < length vel
         then animate_loop e rnd vel time n (i + 3) (particle_body e rnd vel time i pk)
         else None)
      else Some pk)"
  by pat_completeness auto
termination
  by (relation "measure (\<lambda>(e, rnd, vel, time, n, i, pk). n - i)") auto

definition animateParticles ::
  "env \<Rightarrow> (nat \<Rightarrow> real) \<Rightarrow> three \<times> nat \<Rightarrow> (three \<times> nat) option" where
  "animateParticles e rnd sk =
     (case fst sk of
        NoParticles \<Rightarrow> Some sk
      | Particles ps \<Rightarrow>
          (let time = now_ms e * (1 / 1000);
               ps1 = ps\<lparr>time_uniform := time\<rparr>
           in case animate_loop e rnd (velocities ps1) time (length (positions ps1)) 0
                     (positions ps1, snd sk) of
                None \<Rightarrow> None
              | Some (pos, k) \<Rightarrow> Some (Particles (ps1\<lparr>positions := pos, needsUpdate := True\<rparr>), k)))"

text \<open>Any number of frames, one environment per frame.\<close>

fun frames :: "(nat \<Rightarrow> real) \<Rightarrow> env list \<Rightarrow> three \<times> nat \<Rightarrow> (three \<times> nat) option" where
  "frames rnd [] sk = Some sk"
| "frames rnd (e # es) sk =
     (case animateParticles e rnd sk of None \<Rightarrow> None | Some sk' \<Rightarrow> frames rnd es sk')"

text \<open>The shape of the arrays as \<^verbatim>\<open>createParticles\<close> allocates them.\<close>

definition well_shaped :: "particle_set \<Rightarrow> bool" where
  "well_shaped ps =
     (length (velocities ps) = length (positions ps) \<and> length (positions ps) mod 3 = 0)"

subsection \<open>Concrete frames\<close>

text \<open>The position array after a frame; empty when the frame has no result.\<close>

fun positions_of :: "(three \<times> nat) option \<Rightarrow> real list" where
  "positions_of (Some (Particles ps, k)) = positions ps"
| "positions_of (Some (NoParticles, k)) = []"
| "positions_of None = []"

text \<open>
  A window of 1000 by 1000 pixels with the pointer at its centre, at time 0; and the same
  window at any time with the pointer near the bottom edge.
\<close>

definition still_env :: env where
  "still_env = \<lparr> now_ms = 0, mouse_x = 500, mouse_y = 500, innerWidth = 1000, innerHeight = 1000 \<rparr>"

definition pointer_low :: "real \<Rightarrow> env" where
  "pointer_low now =
     \<lparr> now_ms = now, mouse_x = 500, mouse_y = 900, innerWidth = 1000, innerHeight = 1000 \<rparr>"

text \<open>A random source that always returns 0.001.\<close>

definition rnd_small :: "nat \<Rightarrow> real" where
  "rnd_small k = 1 / 1000"

text \<open>Two particles at the same height, both drifting upwards only.\<close>

definition two_particles :: particle_set where
  "two_particles =
     \<lparr> positions = [0, 10, 0, 5, 10, 0],
       velocities = [0, 1 / 100, 0, 0, 1 / 100, 0],
       sizes = [1, 1],
       colors = [1, 49 / 100, 86 / 100, 1, 49 / 100, 86 / 100],
       time_uniform = 0, needsUpdate = False \<rparr>"

section \<open>The animation loop and page visibility\<close>

text \<open>
  What the loop's scheduling depends on: \<^verbatim>\<open>document.hidden\<close>, \<^verbatim>\<open>state.animationId\<close>
  (\<^verbatim>\<open>null\<close> or the last handle returned by \<^verbatim>\<open>requestAnimationFrame\<close>), the handles
  of the callbacks of \<^verbatim>\<open>animate\<close> waiting for the next frame, the browser's next handle
  (handles start at 1), and the number of frames drawn so far.
\<close>

record anim =
  hidden :: bool
  animationId :: "nat option"
  scheduled :: "nat list"
  next_handle :: nat
  frames_drawn :: nat

definition animate :: "anim \<Rightarrow> anim" where
  "animate a =
     (if hidden a then a
      else a\<lparr>animationId := Some (next_handle a),
             scheduled := scheduled a @ [next_handle a],
             next_handle := next_handle a + 1,
             frames_drawn := frames_drawn a + 1\<rparr>)"

definition startAnimation :: "anim \<Rightarrow> anim" where
  "startAnimation a = animate a"

text \<open>\<^verbatim>\<open>!state.animationId\<close>: true for \<^verbatim>\<open>null\<close> and for 0.\<close>

fun no_animationId :: "nat option \<Rightarrow> bool" where
  "no_animationId None = True"
| "no_animationId (Some h) = (h = 0)"

definition on_visibilitychange :: "anim \<Rightarrow> anim" where
  "on_visibilitychange a =
     (if \<not> hidden a \<and> no_animationId (animationId a) then startAnimation a else a)"

text \<open>
  The browser's part: a frame runs the callbacks that were waiting, each once; a change
  of visibility sets \<^verbatim>\<open>document.hidden\<close> and then dispatches \<^verbatim>\<open>visibilitychange\<close>.
\<close>

datatype event = Frame | SetHidden bool

fun run_callbacks :: "nat list \<Rightarrow> anim \<Rightarrow> anim" where
  "run_callbacks [] a = a"
| "run_callbacks (h # hs) a = run_callbacks hs (animate a)"

fun handle :: "event \<Rightarrow> anim \<Rightarrow> anim" where
  "handle Frame a = run_callbacks (scheduled a) (a\<lparr>scheduled := []\<rparr>)"
| "handle (SetHidden b) a = on_visibilitychange (a\<lparr>hidden := b\<rparr>)"

fun run :: "event list \<Rightarrow> anim \<Rightarrow> anim" where
  "run [] a = a"
| "run (ev # evs) a = run evs (handle ev a)"

text \<open>Start-up calls \<^verbatim>\<open>startAnimation\<close> once, with the page hidden or not.\<close>

definition page_load :: "bool \<Rightarrow> anim" where
  "page_load h =
     startAnimation \<lparr> hidden = h, animationId = None, scheduled = [], next_handle = 1,
                      frames_drawn = 0 \<rparr>"

text \<open>
  The invariant of the scheduling: at most one callback waits, and whenever one waits the
  stored handle is a real one.
\<close>

definition loop_inv :: "anim \<Rightarrow> bool" where
  "loop_inv a = (length (scheduled a) \<le> 1 \<and> 0 < next_handle a
     \<and> (scheduled a = [] \<or> \<not> no_animationId (animationId a)))"

section \<open>Results on the carousel\<close>

lemma steps_paused:
  "\<not> running c \<Longrightarrow>
     px (steps nows c) = px c \<and> \<not> running (steps nows c)
     \<and> pxPerSecond (steps nows c) = pxPerSecond c
     \<and> originalTotalWidth (steps nows c) = originalTotalWidth c
     \<and> last (steps nows c) = List.last (last c # nows)"
  by (induction nows arbitrary: c) (simp_all add: step_def Let_def)

text \<open>
  Claim C6. Pausing and then running any number of frames, with any timestamps, leaves
  the offset at its value at pause time. After resuming, the next frame advances from
  exactly that value, by the speed times the interval since the most recent frame only
  (followed by the single wrap): the length of the pause does not enter.
\<close>

theorem pause_freezes_offset:
  "px (steps nows (pause c)) = px c \<and>
   px (step now (resume (steps nows (pause c)))) =
     (let p = px c + pxPerSecond c * ((now - List.last (last c # nows)) / 1000)
      in if p \<ge> originalTotalWidth c then p - originalTotalWidth c else p)"
proof -
  have np: "\<not> running (pause c)" by (simp add: pause_def)
  note fr = steps_paused [OF np]
  have a: "px (steps nows (pause c)) = px c"
    using fr by (simp add: pause_def)
  have l: "last (steps nows (pause c)) = List.last (last c # nows)"
    using fr [of nows] by (simp add: pause_def)
  have s: "pxPerSecond (steps nows (pause c)) = pxPerSecond c"
    using fr [of nows] by (simp add: pause_def)
  have w: "originalTotalWidth (steps nows (pause c)) = originalTotalWidth c"
    using fr [of nows] by (simp add: pause_def)
  show ?thesis
    using a l s w by (simp add: step_def resume_def Let_def)
qed

subsection \<open>The offset is the distance travelled modulo the set width\<close>

lemma rmod_unique:
  assumes "0 < s" "0 \<le> p" "p < s" "p = x - s * of_int m"
  shows "p = rmod x s"
proof -
  have "x / s = p / s + of_int m" using assms by (simp add: field_simps)
  moreover have "0 \<le> p / s" "p / s < 1" using assms by simp_all
  ultimately have "\<lfloor>x / s\<rfloor> = m" by (simp add: floor_unique)
  then show ?thesis using assms by (simp add: rmod_def)
qed

lemma step_running_inv:
  assumes r: "running c" and s0: "0 \<le> pxPerSecond c"
    and inv: "0 \<le> px c" "px c < originalTotalWidth c"
    and m: "px c = pxPerSecond c * ((last c - t0) / 1000) - originalTotalWidth c * of_int m"
    and dt: "0 < (now - last c) / 1000" "pxPerSecond c * ((now - last c) / 1000) < originalTotalWidth c"
  shows "running (step now c) \<and> pxPerSecond (step now c) = pxPerSecond c
     \<and> originalTotalWidth (step now c) = originalTotalWidth c
     \<and> last (step now c) = now
     \<and> 0 \<le> px (step now c) \<and> px (step now c) < originalTotalWidth c
     \<and> (\<exists>m'. px (step now c) = pxPerSecond c * ((now - t0) / 1000) - originalTotalWidth c * of_int m')"
proof -
  let ?p = "px c + pxPerSecond c * ((now - last c) / 1000)"
  have p0: "0 \<le> ?p" using inv s0 dt by simp
  have pe: "?p = pxPerSecond c * ((now - t0) / 1000) - originalTotalWidth c * of_int m"
    using m by (simp add: algebra_simps diff_divide_distrib)
  show ?thesis
  proof (cases "?p \<ge> originalTotalWidth c")
    case True
    have "?p - originalTotalWidth c = pxPerSecond c * ((now - t0) / 1000) - originalTotalWidth c * of_int (m + 1)"
      using pe by (simp add: algebra_simps)
    then have "\<exists>m'. ?p - originalTotalWidth c = pxPerSecond c * ((now - t0) / 1000) - originalTotalWidth c * of_int m'"
      by blast
    moreover have "?p - originalTotalWidth c < originalTotalWidth c" using inv dt by linarith
    ultimately show ?thesis using True r by (simp add: step_def Let_def)
  next
    case False
    have "\<exists>m'. ?p = pxPerSecond c * ((now - t0) / 1000) - originalTotalWidth c * of_int m'"
      using pe by blast
    then show ?thesis using False r p0 by (simp add: step_def Let_def)
  qed
qed

lemma steps_running_inv:
  "running c \<Longrightarrow> 0 \<le> pxPerSecond c \<Longrightarrow> 0 \<le> px c \<Longrightarrow> px c < originalTotalWidth c \<Longrightarrow>
   px c = pxPerSecond c * ((last c - t0) / 1000) - originalTotalWidth c * of_int m \<Longrightarrow>
   frames_small (pxPerSecond c) (originalTotalWidth c) (last c) nows \<Longrightarrow>
   0 \<le> px (steps nows c) \<and> px (steps nows c) < originalTotalWidth c
     \<and> (\<exists>m'. px (steps nows c) =
            pxPerSecond c * ((List.last (last c # nows) - t0) / 1000) - originalTotalWidth c * of_int m')"
proof (induction nows arbitrary: c m)
  case Nil
  then show ?case by auto
next
  case (Cons now nows)
  from Cons.prems have dt: "0 < (now - last c) / 1000"
      "pxPerSecond c * ((now - last c) / 1000) < originalTotalWidth c"
      and rest: "frames_small (pxPerSecond c) (originalTotalWidth c) now nows"
    by simp_all
  note st = step_running_inv [OF Cons.prems(1) Cons.prems(2) Cons.prems(3) Cons.prems(4) Cons.prems(5) dt]
  from st obtain m' where
    m': "px (step now c) = pxPerSecond c * ((now - t0) / 1000) - originalTotalWidth c * of_int m'"
    by blast
  have "0 \<le> px (steps nows (step now c)) \<and> px (steps nows (step now c)) < originalTotalWidth (step now c)
     \<and> (\<exists>k. px (steps nows (step now c)) =
            pxPerSecond (step now c) * ((List.last (last (step now c) # nows) - t0) / 1000)
              - originalTotalWidth (step now c) * of_int k)"
    apply (rule Cons.IH [where m = m'])
    using st m' rest Cons.prems(2) by simp_all
  then show ?case using st by simp
qed

lemma init_props:
  "running (carousel_init ws gap t0) \<and> px (carousel_init ws gap t0) = 0
   \<and> last (carousel_init ws gap t0) = t0 \<and> 30 \<le> pxPerSecond (carousel_init ws gap t0)"
  by (simp add: carousel_init_def Let_def)

lemma w600: "originalTotalWidth_of [600] (Fin 0) = Fin 600"
  by (simp add: originalTotalWidth_of_def fallback_width_def)

lemma c600: "carousel_init [600] (Fin 0) 0 = \<lparr> px = 0, last = 0, running = True,
        pxPerSecond = 100, originalTotalWidth = 600, translate_x = 0 \<rparr>"
  by (simp add: carousel_init_def w600 Math_round_def)

text \<open>
  Claim C2. Start the carousel from its setup (offset 0, running, speed
  \<open>max 30 (round (S / 6))\<close>) and run any sequence of frames whose intervals are
  positive and each advance the offset by less than the set width \<open>S\<close>. Then the
  offset equals \<open>speed * T\<close> modulo \<open>S\<close>, where \<open>T\<close> is the total elapsed time in
  seconds. Over exact reals the equality is exact.
\<close>

theorem offset_is_modulo:
  assumes "c0 = carousel_init widths gap t0"
    and "frames_small (pxPerSecond c0) (originalTotalWidth c0) t0 nows"
  shows "px (steps nows c0) =
           rmod (pxPerSecond c0 * ((List.last (t0 # nows) - t0) / 1000)) (originalTotalWidth c0)"
proof (cases nows)
  case Nil
  then show ?thesis using assms(1) by (simp add: carousel_init_def Let_def rmod_def)
next
  case (Cons now rest)
  then have ne: "nows \<noteq> []" by simp
  have r: "running c0" and p: "px c0 = 0" and l: "last c0 = t0" and s: "30 \<le> pxPerSecond c0"
    using init_props [of widths gap t0] assms(1) by simp_all
  note nr = Cons
  have pos: "0 < originalTotalWidth c0"
  proof -
    have "0 < (now - t0) / 1000" "pxPerSecond c0 * ((now - t0) / 1000) < originalTotalWidth c0"
      using assms(2) nr by simp_all
    moreover have "0 \<le> pxPerSecond c0 * ((now - t0) / 1000)" using s calculation(1) by simp
    ultimately show ?thesis by linarith
  qed
  have "0 \<le> px (steps nows c0) \<and> px (steps nows c0) < originalTotalWidth c0
     \<and> (\<exists>m'. px (steps nows c0) =
            pxPerSecond c0 * ((List.last (last c0 # nows) - t0) / 1000) - originalTotalWidth c0 * of_int m')"
    apply (rule steps_running_inv [where m = 0])
    using r s p pos l assms(2) by simp_all
  then obtain m' where b: "0 \<le> px (steps nows c0)" "px (steps nows c0) < originalTotalWidth c0"
    and e: "px (steps nows c0) = pxPerSecond c0 * ((List.last nows - t0) / 1000) - originalTotalWidth c0 * of_int m'"
    using ne l by auto
  from ne have "List.last (t0 # nows) = List.last nows" by simp
  with e have e': "px (steps nows c0) =
      pxPerSecond c0 * ((List.last (t0 # nows) - t0) / 1000) - originalTotalWidth c0 * of_int m'"
    by simp
  show ?thesis by (rule rmod_unique [OF pos b e'])
qed

theorem offset_is_modulo_witness:
  "frames_small 100 600 0 [1000, 2000, 3000, 4000, 5000, 6000, 7000]
   \<and> px (steps [1000, 2000, 3000, 4000, 5000, 6000, 7000] (carousel_init [600] (Fin 0) 0)) = 100"
proof -
  let ?c = "carousel_init [600] (Fin 0) 0"
  let ?nows = "[1000, 2000, 3000, 4000, 5000, 6000, 7000 :: real]"
  have h: "frames_small (pxPerSecond ?c) (originalTotalWidth ?c) 0 ?nows"
    by (simp add: c600)
  have "px (steps ?nows ?c) =
      rmod (pxPerSecond ?c * ((List.last (0 # ?nows) - 0) / 1000)) (originalTotalWidth ?c)"
    by (rule offset_is_modulo [OF refl h])
  also have "\<dots> = 100" by (simp add: c600 rmod_def)
  finally show ?thesis using h by (simp add: c600)
qed

subsection \<open>The fallback width\<close>

lemma js_add_nonneg: "nonneg_or_nan a \<Longrightarrow> nonneg_or_nan b \<Longrightarrow> nonneg_or_nan (js_add a b)"
  by (cases a; cases b) simp_all

lemma sum_widths_nonneg:
  "nonneg_or_nan gap \<Longrightarrow> nonneg_or_nan acc \<Longrightarrow> list_all (\<lambda>w. 0 \<le> w) ws \<Longrightarrow>
     nonneg_or_nan (sum_widths gap acc ws)"
  by (induction gap acc ws rule: sum_widths.induct) (simp_all add: js_add_nonneg)

text \<open>
  Claim C5. When the measured sum of widths and gaps is 0 or not finite, the set width
  is exactly 1000; otherwise it is the measured sum, unchanged. For every measurement
  the page can produce, the set width is a positive finite number.
\<close>

theorem fallback_width_positive:
  assumes "list_all (\<lambda>w. 0 \<le> w) widths" and "nonneg_or_nan gap"
  shows "originalTotalWidth_of widths gap =
           (if sum_widths gap (Fin 0) widths = Fin 0 \<or> \<not> isFinite (sum_widths gap (Fin 0) widths)
            then Fin 1000 else sum_widths gap (Fin 0) widths)
         \<and> (\<exists>r. 0 < r \<and> originalTotalWidth_of widths gap = Fin r)"
proof -
  have n: "nonneg_or_nan (sum_widths gap (Fin 0) widths)"
    using assms by (simp add: sum_widths_nonneg)
  show ?thesis
    using n by (cases "sum_widths gap (Fin 0) widths")
      (simp_all add: originalTotalWidth_of_def fallback_width_def)
qed

theorem fallback_width_positive_witness:
  "list_all (\<lambda>w. 0 \<le> w) [100, 200 :: real] \<and> nonneg_or_nan (Fin 10)
   \<and> originalTotalWidth_of [100, 200] (Fin 10) = Fin 310
   \<and> originalTotalWidth_of [100, 200] NaN = Fin 1000
   \<and> originalTotalWidth_of [] (Fin 10) = Fin 1000"
proof -
  have h1: "list_all (\<lambda>w. 0 \<le> w) [100, 200 :: real]" by simp
  have h2: "nonneg_or_nan (Fin 10)" by simp
  have h3: "nonneg_or_nan NaN" by simp
  have h0: "list_all (\<lambda>w. 0 \<le> w) ([] :: real list)" by simp
  have a: "originalTotalWidth_of [100, 200] (Fin 10) = Fin 310"
    using fallback_width_positive [OF h1 h2] by simp
  have b: "originalTotalWidth_of [100, 200] NaN = Fin 1000"
    using fallback_width_positive [OF h1 h3] by simp
  have c: "originalTotalWidth_of [] (Fin 10) = Fin 1000"
    using fallback_width_positive [OF h0 h2] by simp
  show ?thesis using h1 h2 a b c by simp
qed

section \<open>Results on the theme\<close>

text \<open>
  Claim C9. From a theme that is dark or light, on a page whose toggle button (if there
  is one) has its icon, two toggles both return; the second restores the original
  theme, and after each toggle the stored theme entry equals the current theme.
\<close>

theorem toggle_twice:
  assumes "currentTheme p = ''dark'' \<or> currentTheme p = ''light''"
    and "themeToggle p \<noteq> ButtonWithoutIcon"
  shows "\<exists>p1 p2. toggleTheme p = Normal p1 \<and> toggleTheme p1 = Normal p2
           \<and> localStorage p1 ''theme'' = Some (currentTheme p1)
           \<and> currentTheme p1 \<noteq> currentTheme p
           \<and> localStorage p2 ''theme'' = Some (currentTheme p2)
           \<and> currentTheme p2 = currentTheme p"
  using assms
  by (cases "themeToggle p") (auto simp: toggleTheme_def updateTheme_def Let_def)

theorem toggle_twice_witness:
  "(currentTheme dark_page = ''dark'' \<or> currentTheme dark_page = ''light'')
   \<and> themeToggle dark_page \<noteq> ButtonWithoutIcon
   \<and> (\<exists>p1 p2. toggleTheme dark_page = Normal p1 \<and> toggleTheme p1 = Normal p2
           \<and> localStorage p1 ''theme'' = Some (currentTheme p1)
           \<and> currentTheme p1 \<noteq> currentTheme dark_page
           \<and> localStorage p2 ''theme'' = Some (currentTheme p2)
           \<and> currentTheme p2 = currentTheme dark_page)"
proof -
  have h1: "currentTheme dark_page = ''dark'' \<or> currentTheme dark_page = ''light''"
    by (simp add: dark_page_def)
  have h2: "themeToggle dark_page \<noteq> ButtonWithoutIcon"
    by (simp add: dark_page_def)
  show ?thesis
    by (intro conjI h1 h2 toggle_twice [OF h1 h2])
qed

section \<open>Results on form validation\<close>

lemma trim_empty: "trim [] = []" by (simp add: trim_def)
lemma trim_bad: "trim ''bad'' = ''bad''" by (simp add: trim_def is_space_def)
lemma trim_hi: "trim ''hi'' = ''hi''" by (simp add: trim_def is_space_def)

lemma bad_email: "\<not> emailRegex_test ''bad''"
  by (simp add: emailRegex_test_def upt_rec)

lemma good_email: "emailRegex_test ''a@b.com''"
  by (simp add: emailRegex_test_def upt_rec not_space_or_at_def is_space_def)

lemma check_name: "validateField_check ''name'' [] = (False, ''Name is required'')"
  by (simp add: validateField_check_def trim_empty)
lemma check_email: "validateField_check ''email'' ''bad'' = (False, ''Please enter a valid email address'')"
  by (simp add: validateField_check_def trim_bad bad_email)
lemma check_message: "validateField_check ''message'' ''hi'' = (False, ''Message must be at least 10 characters'')"
  by (simp add: validateField_check_def trim_hi)

text \<open>
  Claim C8. Submitting the contact form with an empty name, the email \<^verbatim>\<open>bad\<close> and
  the message \<^verbatim>\<open>hi\<close> flags all three controls and shows exactly the three messages
  "Name is required", "Please enter a valid email address" and "Message must be at least
  10 characters"; the values of the controls stay as entered and no success notice
  appears.
\<close>

theorem invalid_submit:
  "handleFormSubmit (contact_form [] ''bad'' ''hi'') =
     Normal \<lparr> controls =
         [\<lparr>fname = ''name'', fvalue = [], fdefault = [], error_class = True\<rparr>,
          \<lparr>fname = ''email'', fvalue = ''bad'', fdefault = [], error_class = True\<rparr>,
          \<lparr>fname = ''message'', fvalue = ''hi'', fdefault = [], error_class = True\<rparr>],
       error_elems =
         [''name-error'' \<mapsto> \<lparr>textContent = ''Name is required'', show_class = True\<rparr>,
          ''email-error'' \<mapsto> \<lparr>textContent = ''Please enter a valid email address'', show_class = True\<rparr>,
          ''message-error'' \<mapsto> \<lparr>textContent = ''Message must be at least 10 characters'', show_class = True\<rparr>],
       success_notices = 0 \<rparr>"
  by (simp add: handleFormSubmit_def contact_form_def validateField_def showFieldError_def
      check_name check_email check_message Let_def fun_upd_twist)

subsection \<open>Validation sees the trimmed value\<close>

lemma dropWhile_all_space: "list_all is_space s \<Longrightarrow> dropWhile is_space s = []"
  by (simp add: list_all_iff)

lemma trim_all_space: "list_all is_space s \<Longrightarrow> trim s = []"
  by (simp add: trim_def dropWhile_all_space)

lemma trim_pad_left: "list_all is_space l \<Longrightarrow> trim (l @ v) = trim v"
  by (simp add: trim_def list_all_iff dropWhile_append2)

lemma trim_pad_right:
  assumes "list_all is_space r"
  shows "trim (v @ r) = trim v"
proof (cases "list_all is_space v")
  case True
  then have "list_all is_space (v @ r)" using assms by simp
  then show ?thesis using True by (simp only: trim_all_space)
next
  case False
  then obtain x where x: "x \<in> set v" "\<not> is_space x" by (auto simp: list_all_iff)
  have "dropWhile is_space (v @ r) = dropWhile is_space v @ r"
    using x by (rule dropWhile_append1)
  moreover have "dropWhile is_space (rev r @ rev (dropWhile is_space v))
      = dropWhile is_space (rev (dropWhile is_space v))"
  proof (rule dropWhile_append2)
    fix y assume "y \<in> set (rev r)"
    then show "is_space y" using assms by (simp add: list_all_iff)
  qed
  ultimately show ?thesis by (simp add: trim_def)
qed

lemma trim_pad: "list_all is_space l \<Longrightarrow> list_all is_space r \<Longrightarrow> trim (l @ v @ r) = trim v"
  by (simp add: trim_pad_left trim_pad_right)

text \<open>
  Claim C10. A value made of white space only gets the "is required" message of its
  field (name, email, message). White space around a value never changes the outcome
  of the check, and the minimum lengths of name (2) and message (10) are compared with
  the length of the trimmed value.
\<close>

theorem validation_uses_trimmed_value:
  assumes "list_all is_space l" and "list_all is_space r"
  shows "validateField_check ''name'' l = (False, ''Name is required'')
       \<and> validateField_check ''email'' l = (False, ''Email is required'')
       \<and> validateField_check ''message'' l = (False, ''Message is required'')
       \<and> validateField_check n (l @ v @ r) = validateField_check n v
       \<and> (trim v \<noteq> [] \<longrightarrow>
            validateField_check ''name'' v =
              (if length (trim v) < 2 then (False, ''Name must be at least 2 characters'') else (True, []))
          \<and> validateField_check ''message'' v =
              (if length (trim v) < 10 then (False, ''Message must be at least 10 characters'') else (True, [])))"
  using assms
  by (simp add: validateField_check_def trim_all_space trim_pad)

lemma spaces12: "list_all is_space ''            ''"
  by (simp add: is_space_def)

lemma trim_ab: "trim '' ab '' = ''ab''"
  by (simp add: trim_def is_space_def)

theorem validation_uses_trimmed_value_witness:
  "list_all is_space ''            ''
   \<and> validateField_check ''message'' ''            '' = (False, ''Message is required'')
   \<and> validateField_check ''name'' ''            '' = (False, ''Name is required'')
   \<and> validateField_check ''email'' ''            '' = (False, ''Email is required'')
   \<and> trim '' ab '' \<noteq> []
   \<and> validateField_check ''message'' '' ab '' = (False, ''Message must be at least 10 characters'')
   \<and> validateField_check ''name'' '' ab '' = (True, [])"
proof -
  note t = validation_uses_trimmed_value [OF spaces12 spaces12, of _ "'' ab ''"]
  have ne: "trim '' ab '' \<noteq> []" by (simp add: trim_ab)
  have a: "validateField_check ''message'' ''            '' = (False, ''Message is required'')"
    and b: "validateField_check ''name'' ''            '' = (False, ''Name is required'')"
    and c: "validateField_check ''email'' ''            '' = (False, ''Email is required'')"
    using t by blast+
  have d: "validateField_check ''message'' '' ab '' = (False, ''Message must be at least 10 characters'')"
    and e: "validateField_check ''name'' '' ab '' = (True, [])"
    using t ne by (simp_all add: trim_ab)
  show ?thesis using spaces12 a b c d e ne by blast
qed

section \<open>Results on the particle field\<close>

subsection \<open>The statements and the loop body\<close>

lemma length_add_at [simp]: "length (add_at xs i d) = length xs"
  by (simp add: add_at_def)

lemma length_sub_at [simp]: "length (sub_at xs i d) = length xs"
  by (simp add: sub_at_def)

lemma length_set_if_above [simp]: "length (set_if_above xs i b v) = length xs"
  by (simp add: set_if_above_def)

lemma length_set_if_below [simp]: "length (set_if_below xs i b v) = length xs"
  by (simp add: set_if_below_def)

lemma nth_add_at:
  "add_at xs i d ! j = (if j = i \<and> i < length xs then xs ! i + d else xs ! j)"
  by (auto simp: add_at_def nth_list_update list_update_beyond not_less)

lemma nth_sub_at:
  "sub_at xs i d ! j = (if j = i \<and> i < length xs then xs ! i - d else xs ! j)"
  by (auto simp: sub_at_def nth_list_update list_update_beyond not_less)

lemma nth_set_if_above:
  "set_if_above xs i b v ! j = (if j = i \<and> i < length xs \<and> xs ! i > b then v else xs ! j)"
  by (auto simp: set_if_above_def nth_list_update list_update_beyond not_less)

lemma nth_set_if_below:
  "set_if_below xs i b v ! j = (if j = i \<and> i < length xs \<and> xs ! i < b then v else xs ! j)"
  by (auto simp: set_if_below_def nth_list_update list_update_beyond not_less)

lemmas nth_stmt = nth_add_at nth_sub_at nth_set_if_above nth_set_if_below nth_list_update

lemma body_length [simp]:
  "length (fst (particle_body e rnd vel t i pk)) = length (fst pk)"
  by (simp add: particle_body_def Let_def)

lemma body_other:
  "j \<noteq> i \<Longrightarrow> j \<noteq> i + 1 \<Longrightarrow> j \<noteq> i + 2 \<Longrightarrow>
     fst (particle_body e rnd vel t i pk) ! j = fst pk ! j"
  by (simp add: particle_body_def Let_def nth_stmt)

lemma body_bounds:
  assumes "i + 2 < length (fst pk)"
  shows "- 20 \<le> fst (particle_body e rnd vel t i pk) ! i"
    and "fst (particle_body e rnd vel t i pk) ! i \<le> 20"
    and "fst (particle_body e rnd vel t i pk) ! (i + 1) \<le> 15"
    and "- 10 \<le> fst (particle_body e rnd vel t i pk) ! (i + 2)"
    and "fst (particle_body e rnd vel t i pk) ! (i + 2) \<le> 10"
  using assms by (simp_all add: particle_body_def Let_def nth_stmt)

lemma body_y:
  assumes "i + 2 < length (fst pk)"
    and "fst pk ! (i + 1) + vel ! (i + 1) - (mouse_y e - innerHeight e / 2) * (3 / 10000) \<le> 15"
  shows "fst (particle_body e rnd vel t i pk) ! (i + 1) =
           fst pk ! (i + 1) + vel ! (i + 1) - (mouse_y e - innerHeight e / 2) * (3 / 10000)"
    and "snd (particle_body e rnd vel t i pk) = snd pk"
  using assms by (simp_all add: particle_body_def Let_def nth_stmt)

lemma body_x:
  assumes "i + 2 < length (fst pk)"
    and "fst pk ! (i + 1) + vel ! (i + 1) - (mouse_y e - innerHeight e / 2) * (3 / 10000) \<le> 15"
    and "- 20 \<le> fst pk ! i + vel ! i + sin (t + real i * (1 / 100)) * (1 / 100)
                 + (mouse_x e - innerWidth e / 2) * (3 / 10000)"
    and "fst pk ! i + vel ! i + sin (t + real i * (1 / 100)) * (1 / 100)
                 + (mouse_x e - innerWidth e / 2) * (3 / 10000) \<le> 20"
  shows "fst (particle_body e rnd vel t i pk) ! i =
           fst pk ! i + vel ! i + sin (t + real i * (1 / 100)) * (1 / 100)
                 + (mouse_x e - innerWidth e / 2) * (3 / 10000)"
  using assms by (simp add: particle_body_def Let_def nth_stmt)

lemma body_z:
  assumes "i + 2 < length (fst pk)"
    and "fst pk ! (i + 1) + vel ! (i + 1) - (mouse_y e - innerHeight e / 2) * (3 / 10000) \<le> 15"
    and "- 10 \<le> fst pk ! (i + 2) + vel ! (i + 2) + cos (t + real i * (15 / 1000)) * (8 / 1000)"
    and "fst pk ! (i + 2) + vel ! (i + 2) + cos (t + real i * (15 / 1000)) * (8 / 1000) \<le> 10"
  shows "fst (particle_body e rnd vel t i pk) ! (i + 2) =
           fst pk ! (i + 2) + vel ! (i + 2) + cos (t + real i * (15 / 1000)) * (8 / 1000)"
  using assms by (simp add: particle_body_def Let_def nth_stmt)

subsection \<open>The loop\<close>

declare animate_loop.simps [simp del]

lemma loop_unfold_done: "\<not> i < n \<Longrightarrow> animate_loop e rnd vel t n i pk = Some pk"
  by (subst animate_loop.simps) simp

lemma loop_unfold_step:
  "i + 2 < n \<Longrightarrow> i + 2 < length vel \<Longrightarrow>
     animate_loop e rnd vel t n i pk =
       animate_loop e rnd vel t n (i + 3) (particle_body e rnd vel t i pk)"
  by (subst animate_loop.simps) simp

lemma loop_unfold_nan:
  "i < n \<Longrightarrow> \<not> (i + 2 < n \<and> i + 2 < length vel) \<Longrightarrow> animate_loop e rnd vel t n i pk = None"
  by (subst animate_loop.simps) auto

lemma loop_total:
  "length vel = n \<Longrightarrow> length (fst pk) = n \<Longrightarrow> i \<le> n \<Longrightarrow> (n - i) mod 3 = 0 \<Longrightarrow>
     \<exists>r. animate_loop e rnd vel t n i pk = Some r \<and> length (fst r) = n"
proof (induction e rnd vel t n i pk rule: animate_loop.induct)
  case (1 e rnd vel t n i pk)
  show ?case
  proof (cases "i < n")
    case False
    then show ?thesis using "1.prems" by (simp add: loop_unfold_done)
  next
    case True
    with "1.prems" have "n - i \<noteq> 0" by simp
    with "1.prems"(4) have three: "3 \<le> n - i" by presburger
    then have g: "i + 2 < n" "i + 2 < length vel" using "1.prems" by simp_all
    have m: "(n - (i + 3)) mod 3 = 0" using "1.prems"(4) three by presburger
    have "\<exists>r. animate_loop e rnd vel t n (i + 3) (particle_body e rnd vel t i pk) = Some r
            \<and> length (fst r) = n"
      using True g "1.prems" three m by (intro "1.IH") simp_all
    then show ?thesis using g by (simp add: loop_unfold_step)
  qed
qed

lemma loop_below:
  "animate_loop e rnd vel t n i pk = Some r \<Longrightarrow> j < i \<Longrightarrow> fst r ! j = fst pk ! j"
proof (induction e rnd vel t n i pk rule: animate_loop.induct)
  case (1 e rnd vel t n i pk)
  show ?case
  proof (cases "i < n")
    case False
    then show ?thesis using "1.prems" by (simp add: loop_unfold_done)
  next
    case True
    show ?thesis
    proof (cases "i + 2 < n \<and> i + 2 < length vel")
      case False
      then show ?thesis using True "1.prems" by (simp add: loop_unfold_nan)
    next
      case g: True
      then have r: "animate_loop e rnd vel t n (i + 3) (particle_body e rnd vel t i pk) = Some r"
        using "1.prems" by (simp add: loop_unfold_step)
      have "fst r ! j = fst (particle_body e rnd vel t i pk) ! j"
        using True g r "1.prems"(2) by (intro "1.IH") simp_all
      then show ?thesis using "1.prems"(2) by (simp add: body_other)
    qed
  qed
qed

lemma loop_length:
  "animate_loop e rnd vel t n i pk = Some r \<Longrightarrow> length (fst r) = length (fst pk)"
proof (induction e rnd vel t n i pk rule: animate_loop.induct)
  case (1 e rnd vel t n i pk)
  show ?case
  proof (cases "i < n")
    case False
    then show ?thesis using "1.prems" by (simp add: loop_unfold_done)
  next
    case True
    show ?thesis
    proof (cases "i + 2 < n \<and> i + 2 < length vel")
      case False
      then show ?thesis using True "1.prems" by (simp add: loop_unfold_nan)
    next
      case g: True
      then have r: "animate_loop e rnd vel t n (i + 3) (particle_body e rnd vel t i pk) = Some r"
        using "1.prems" by (simp add: loop_unfold_step)
      have "length (fst r) = length (fst (particle_body e rnd vel t i pk))"
        using True g r by (intro "1.IH") simp_all
      then show ?thesis by simp
    qed
  qed
qed

text \<open>What the loop leaves in the cells of the particle at \<open>i\<close>: the body's result there.\<close>

lemma loop_at:
  "animate_loop e rnd vel t n i0 pk = Some r \<Longrightarrow> length (fst pk) = n \<Longrightarrow>
   i0 \<le> i \<Longrightarrow> (i - i0) mod 3 = 0 \<Longrightarrow> i < n \<Longrightarrow>
   \<exists>qk. length (fst qk) = n
      \<and> fst qk ! i = fst pk ! i \<and> fst qk ! (i + 1) = fst pk ! (i + 1)
      \<and> fst qk ! (i + 2) = fst pk ! (i + 2)
      \<and> i + 2 < n
      \<and> fst r ! i = fst (particle_body e rnd vel t i qk) ! i
      \<and> fst r ! (i + 1) = fst (particle_body e rnd vel t i qk) ! (i + 1)
      \<and> fst r ! (i + 2) = fst (particle_body e rnd vel t i qk) ! (i + 2)"
proof (induction e rnd vel t n i0 pk rule: animate_loop.induct)
  case (1 e rnd vel t n i0 pk)
  have lt: "i0 < n" using "1.prems" by simp
  have g: "i0 + 2 < n \<and> i0 + 2 < length vel"
  proof (rule ccontr)
    assume "\<not> ?thesis"
    then show False using lt "1.prems"(1) by (simp add: loop_unfold_nan)
  qed
  then have r: "animate_loop e rnd vel t n (i0 + 3) (particle_body e rnd vel t i0 pk) = Some r"
    using "1.prems"(1) by (simp add: loop_unfold_step)
  show ?case
  proof (cases "i = i0")
    case True
    have "fst r ! i = fst (particle_body e rnd vel t i pk) ! i"
      "fst r ! (i + 1) = fst (particle_body e rnd vel t i pk) ! (i + 1)"
      "fst r ! (i + 2) = fst (particle_body e rnd vel t i pk) ! (i + 2)"
      using loop_below [OF r] True by simp_all
    then show ?thesis using "1.prems"(2) g True by blast
  next
    case False
    with "1.prems" have "i - i0 \<noteq> 0" by simp
    with "1.prems"(4) have three: "3 \<le> i - i0" by presburger
    have m: "(i - (i0 + 3)) mod 3 = 0" using "1.prems"(4) three by presburger
    have "\<exists>qk. length (fst qk) = n
      \<and> fst qk ! i = fst (particle_body e rnd vel t i0 pk) ! i
      \<and> fst qk ! (i + 1) = fst (particle_body e rnd vel t i0 pk) ! (i + 1)
      \<and> fst qk ! (i + 2) = fst (particle_body e rnd vel t i0 pk) ! (i + 2)
      \<and> i + 2 < n
      \<and> fst r ! i = fst (particle_body e rnd vel t i qk) ! i
      \<and> fst r ! (i + 1) = fst (particle_body e rnd vel t i qk) ! (i + 1)
      \<and> fst r ! (i + 2) = fst (particle_body e rnd vel t i qk) ! (i + 2)"
      using lt g r "1.prems" three m by (intro "1.IH") simp_all
    moreover have "fst (particle_body e rnd vel t i0 pk) ! i = fst pk ! i"
      "fst (particle_body e rnd vel t i0 pk) ! (i + 1) = fst pk ! (i + 1)"
      "fst (particle_body e rnd vel t i0 pk) ! (i + 2) = fst pk ! (i + 2)"
      using three by (simp_all add: body_other)
    ultimately show ?thesis by simp
  qed
qed

subsection \<open>One frame\<close>

lemma animateParticles_total:
  assumes "well_shaped ps"
  shows "\<exists>ps' k'. animateParticles e rnd (Particles ps, k) = Some (Particles ps', k')
           \<and> velocities ps' = velocities ps \<and> sizes ps' = sizes ps \<and> colors ps' = colors ps
           \<and> well_shaped ps'"
proof -
  let ?n = "length (positions ps)"
  have "\<exists>r. animate_loop e rnd (velocities ps) (now_ms e * (1 / 1000)) ?n 0 (positions ps, k) = Some r
          \<and> length (fst r) = ?n"
    using assms by (intro loop_total) (simp_all add: well_shaped_def)
  then obtain pos k' where
    "animate_loop e rnd (velocities ps) (now_ms e * (1 / 1000)) ?n 0 (positions ps, k) = Some (pos, k')"
    and "length pos = ?n"
    by auto
  then show ?thesis
    using assms by (simp add: animateParticles_def Let_def well_shaped_def)
qed

lemma animateParticles_at:
  assumes r: "animateParticles e rnd (Particles ps, k) = Some (Particles ps', k')"
    and i: "i mod 3 = 0" "i < length (positions ps)"
  shows "\<exists>qk. length (fst qk) = length (positions ps)
      \<and> fst qk ! i = positions ps ! i \<and> fst qk ! (i + 1) = positions ps ! (i + 1)
      \<and> fst qk ! (i + 2) = positions ps ! (i + 2)
      \<and> i + 2 < length (positions ps)
      \<and> positions ps' ! i =
           fst (particle_body e rnd (velocities ps) (now_ms e * (1 / 1000)) i qk) ! i
      \<and> positions ps' ! (i + 1) =
           fst (particle_body e rnd (velocities ps) (now_ms e * (1 / 1000)) i qk) ! (i + 1)
      \<and> positions ps' ! (i + 2) =
           fst (particle_body e rnd (velocities ps) (now_ms e * (1 / 1000)) i qk) ! (i + 2)"
proof -
  let ?n = "length (positions ps)"
  from r obtain pos where
    l: "animate_loop e rnd (velocities ps) (now_ms e * (1 / 1000)) ?n 0 (positions ps, k) = Some (pos, k')"
    and p: "positions ps' = pos"
    by (auto simp: animateParticles_def Let_def split: option.splits)
  have "\<exists>qk. length (fst qk) = ?n
      \<and> fst qk ! i = fst (positions ps, k) ! i \<and> fst qk ! (i + 1) = fst (positions ps, k) ! (i + 1)
      \<and> fst qk ! (i + 2) = fst (positions ps, k) ! (i + 2)
      \<and> i + 2 < ?n
      \<and> fst (pos, k') ! i = fst (particle_body e rnd (velocities ps) (now_ms e * (1 / 1000)) i qk) ! i
      \<and> fst (pos, k') ! (i + 1) = fst (particle_body e rnd (velocities ps) (now_ms e * (1 / 1000)) i qk) ! (i + 1)
      \<and> fst (pos, k') ! (i + 2) = fst (particle_body e rnd (velocities ps) (now_ms e * (1 / 1000)) i qk) ! (i + 2)"
    using i by (intro loop_at [OF l]) simp_all
  then show ?thesis using p by simp
qed

lemma animateParticles_y:
  assumes r: "animateParticles e rnd (Particles ps, k) = Some (Particles ps', k')"
    and i: "i mod 3 = 0" "i < length (positions ps)"
    and y: "positions ps ! (i + 1) + velocities ps ! (i + 1)
              - (mouse_y e - innerHeight e / 2) * (3 / 10000) \<le> 15"
  shows "positions ps' ! (i + 1) =
           positions ps ! (i + 1) + velocities ps ! (i + 1)
              - (mouse_y e - innerHeight e / 2) * (3 / 10000)"
proof -
  from animateParticles_at [OF r i] obtain qk where q: "length (fst qk) = length (positions ps)"
      "fst qk ! (i + 1) = positions ps ! (i + 1)" "i + 2 < length (positions ps)"
      "positions ps' ! (i + 1) =
           fst (particle_body e rnd (velocities ps) (now_ms e * (1 / 1000)) i qk) ! (i + 1)"
    by blast
  have "fst (particle_body e rnd (velocities ps) (now_ms e * (1 / 1000)) i qk) ! (i + 1) =
           fst qk ! (i + 1) + velocities ps ! (i + 1) - (mouse_y e - innerHeight e / 2) * (3 / 10000)"
    using q y by (intro body_y) simp_all
  then show ?thesis using q by simp
qed

lemma animateParticles_x:
  assumes r: "animateParticles e rnd (Particles ps, k) = Some (Particles ps', k')"
    and i: "i mod 3 = 0" "i < length (positions ps)"
    and y: "positions ps ! (i + 1) + velocities ps ! (i + 1)
              - (mouse_y e - innerHeight e / 2) * (3 / 10000) \<le> 15"
    and x: "- 20 \<le> positions ps ! i + velocities ps ! i
                 + sin (now_ms e * (1 / 1000) + real i * (1 / 100)) * (1 / 100)
                 + (mouse_x e - innerWidth e / 2) * (3 / 10000)"
           "positions ps ! i + velocities ps ! i
                 + sin (now_ms e * (1 / 1000) + real i * (1 / 100)) * (1 / 100)
                 + (mouse_x e - innerWidth e / 2) * (3 / 10000) \<le> 20"
  shows "positions ps' ! i =
           positions ps ! i + velocities ps ! i
                 + sin (now_ms e * (1 / 1000) + real i * (1 / 100)) * (1 / 100)
                 + (mouse_x e - innerWidth e / 2) * (3 / 10000)"
proof -
  from animateParticles_at [OF r i] obtain qk where q: "length (fst qk) = length (positions ps)"
      "fst qk ! i = positions ps ! i"
      "fst qk ! (i + 1) = positions ps ! (i + 1)" "i + 2 < length (positions ps)"
      "positions ps' ! i =
           fst (particle_body e rnd (velocities ps) (now_ms e * (1 / 1000)) i qk) ! i"
    by blast
  have "fst (particle_body e rnd (velocities ps) (now_ms e * (1 / 1000)) i qk) ! i =
           fst qk ! i + velocities ps ! i
                 + sin (now_ms e * (1 / 1000) + real i * (1 / 100)) * (1 / 100)
                 + (mouse_x e - innerWidth e / 2) * (3 / 10000)"
    using q x y by (intro body_x) simp_all
  then show ?thesis using q by simp
qed

lemma animateParticles_z:
  assumes r: "animateParticles e rnd (Particles ps, k) = Some (Particles ps', k')"
    and i: "i mod 3 = 0" "i < length (positions ps)"
    and y: "positions ps ! (i + 1) + velocities ps ! (i + 1)
              - (mouse_y e - innerHeight e / 2) * (3 / 10000) \<le> 15"
    and z: "- 10 \<le> positions ps ! (i + 2) + velocities ps ! (i + 2)
                 + cos (now_ms e * (1 / 1000) + real i * (15 / 1000)) * (8 / 1000)"
           "positions ps ! (i + 2) + velocities ps ! (i + 2)
                 + cos (now_ms e * (1 / 1000) + real i * (15 / 1000)) * (8 / 1000) \<le> 10"
  shows "positions ps' ! (i + 2) =
           positions ps ! (i + 2) + velocities ps ! (i + 2)
                 + cos (now_ms e * (1 / 1000) + real i * (15 / 1000)) * (8 / 1000)"
proof -
  from animateParticles_at [OF r i] obtain qk where q: "length (fst qk) = length (positions ps)"
      "fst qk ! (i + 2) = positions ps ! (i + 2)"
      "fst qk ! (i + 1) = positions ps ! (i + 1)" "i + 2 < length (positions ps)"
      "positions ps' ! (i + 2) =
           fst (particle_body e rnd (velocities ps) (now_ms e * (1 / 1000)) i qk) ! (i + 2)"
    by blast
  have "fst (particle_body e rnd (velocities ps) (now_ms e * (1 / 1000)) i qk) ! (i + 2) =
           fst qk ! (i + 2) + velocities ps ! (i + 2)
                 + cos (now_ms e * (1 / 1000) + real i * (15 / 1000)) * (8 / 1000)"
    using q z y by (intro body_z) simp_all
  then show ?thesis using q by simp
qed

lemma animateParticles_bounds:
  assumes r: "animateParticles e rnd (Particles ps, k) = Some (Particles ps', k')"
    and i: "i mod 3 = 0" "i < length (positions ps)"
  shows "- 20 \<le> positions ps' ! i \<and> positions ps' ! i \<le> 20
       \<and> positions ps' ! (i + 1) \<le> 15
       \<and> - 10 \<le> positions ps' ! (i + 2) \<and> positions ps' ! (i + 2) \<le> 10"
proof -
  from animateParticles_at [OF r i] obtain qk where q: "length (fst qk) = length (positions ps)"
      "i + 2 < length (positions ps)"
      "positions ps' ! i =
           fst (particle_body e rnd (velocities ps) (now_ms e * (1 / 1000)) i qk) ! i"
      "positions ps' ! (i + 1) =
           fst (particle_body e rnd (velocities ps) (now_ms e * (1 / 1000)) i qk) ! (i + 1)"
      "positions ps' ! (i + 2) =
           fst (particle_body e rnd (velocities ps) (now_ms e * (1 / 1000)) i qk) ! (i + 2)"
    by blast
  have "i + 2 < length (fst qk)" using q by simp
  from body_bounds [OF this] show ?thesis using q by simp
qed

subsection \<open>Any number of frames\<close>

lemma frames_keep_arrays:
  assumes "well_shaped ps"
  shows "\<exists>ps' k'. frames rnd es (Particles ps, k) = Some (Particles ps', k')
           \<and> velocities ps' = velocities ps \<and> sizes ps' = sizes ps \<and> colors ps' = colors ps"
  using assms
proof (induction es arbitrary: ps k)
  case Nil
  then show ?case by simp
next
  case (Cons e es)
  from animateParticles_total [OF Cons.prems, of e rnd k] obtain ps1 k1 where
    s: "animateParticles e rnd (Particles ps, k) = Some (Particles ps1, k1)"
    and eq: "velocities ps1 = velocities ps" "sizes ps1 = sizes ps" "colors ps1 = colors ps"
    and w: "well_shaped ps1"
    by blast
  from Cons.IH [OF w, of k1] obtain ps' k' where
    "frames rnd es (Particles ps1, k1) = Some (Particles ps', k')"
    "velocities ps' = velocities ps1" "sizes ps' = sizes ps1" "colors ps' = colors ps1"
    by blast
  then show ?case using s eq by simp
qed

subsection \<open>Creation\<close>

declare create_loop.simps [simp del]

lemma create_particle_shape:
  "length (positions (fst (create_particle rnd i sk))) = length (positions (fst sk))"
  "length (velocities (fst (create_particle rnd i sk))) = length (velocities (fst sk))"
  "snd (create_particle rnd i sk) = snd sk + 8"
  by (simp_all add: create_particle_def Let_def)

lemma create_particle_below:
  "c < 3 * i \<Longrightarrow> positions (fst (create_particle rnd i sk)) ! c = positions (fst sk) ! c"
  "c < 3 * i \<Longrightarrow> velocities (fst (create_particle rnd i sk)) ! c = velocities (fst sk) ! c"
  by (simp_all add: create_particle_def Let_def mult.commute)

lemma create_particle_y:
  "3 * i + 2 < length (positions (fst sk)) \<Longrightarrow>
     positions (fst (create_particle rnd i sk)) ! (3 * i + 1) = rnd (snd sk + 1) * 30 - 15"
  "3 * i + 2 < length (velocities (fst sk)) \<Longrightarrow>
     velocities (fst (create_particle rnd i sk)) ! (3 * i + 1) = rnd (snd sk + 4) * (3 / 100) + 1 / 100"
  by (simp_all add: create_particle_def Let_def mult.commute)

lemma create_loop_shape:
  "length (positions (fst (create_loop rnd n i sk))) = length (positions (fst sk))
   \<and> length (velocities (fst (create_loop rnd n i sk))) = length (velocities (fst sk))"
proof (induction rnd n i sk rule: create_loop.induct)
  case (1 rnd n i sk)
  show ?case
  proof (cases "i < n")
    case True
    with "1.IH" show ?thesis
      by (subst (1 2) create_loop.simps) (simp add: create_particle_shape)
  next
    case False
    then show ?thesis by (subst (1 2) create_loop.simps) simp
  qed
qed

lemma create_loop_below:
  "c < 3 * i \<Longrightarrow>
     positions (fst (create_loop rnd n i sk)) ! c = positions (fst sk) ! c
   \<and> velocities (fst (create_loop rnd n i sk)) ! c = velocities (fst sk) ! c"
proof (induction rnd n i sk rule: create_loop.induct)
  case (1 rnd n i sk)
  show ?case
  proof (cases "i < n")
    case True
    have "c < 3 * (i + 1)" using "1.prems" by simp
    from "1.IH" [OF True this] show ?thesis
      using True "1.prems" by (subst (1 2) create_loop.simps) (simp add: create_particle_below)
  next
    case False
    then show ?thesis by (subst (1 2) create_loop.simps) simp
  qed
qed

lemma create_loop_y:
  "i \<le> j \<Longrightarrow> j < n \<Longrightarrow> 3 * j + 2 < length (positions (fst sk)) \<Longrightarrow>
   3 * j + 2 < length (velocities (fst sk)) \<Longrightarrow>
     positions (fst (create_loop rnd n i sk)) ! (3 * j + 1) = rnd (snd sk + 8 * (j - i) + 1) * 30 - 15
   \<and> velocities (fst (create_loop rnd n i sk)) ! (3 * j + 1)
        = rnd (snd sk + 8 * (j - i) + 4) * (3 / 100) + 1 / 100"
proof (induction rnd n i sk rule: create_loop.induct)
  case (1 rnd n i sk)
  have lt: "i < n" using "1.prems" by simp
  show ?case
  proof (cases "j = i")
    case True
    have unf: "create_loop rnd n i sk = create_loop rnd n (i + 1) (create_particle rnd i sk)"
      using lt by (subst create_loop.simps) simp
    have "3 * i + 1 < 3 * (i + 1)" by simp
    note b = create_loop_below [OF this, of rnd n "create_particle rnd i sk"]
    have y: "positions (fst (create_particle rnd i sk)) ! (3 * i + 1) = rnd (snd sk + 1) * 30 - 15"
      "velocities (fst (create_particle rnd i sk)) ! (3 * i + 1) = rnd (snd sk + 4) * (3 / 100) + 1 / 100"
      using "1.prems" True by (simp_all only: create_particle_y)
    show ?thesis
      unfolding unf True using b y by simp
  next
    case False
    then have le: "i + 1 \<le> j" using "1.prems" by simp
    have unf: "create_loop rnd n i sk = create_loop rnd n (i + 1) (create_particle rnd i sk)"
      using lt by (subst create_loop.simps) simp
    have e1: "snd (create_particle rnd i sk) + 8 * (j - (i + 1)) + 1 = snd sk + 8 * (j - i) + 1"
      and e4: "snd (create_particle rnd i sk) + 8 * (j - (i + 1)) + 4 = snd sk + 8 * (j - i) + 4"
      using le by (simp_all add: create_particle_shape)
    have l: "3 * j + 2 < length (positions (fst (create_particle rnd i sk)))"
      "3 * j + 2 < length (velocities (fst (create_particle rnd i sk)))"
      using "1.prems" by (simp_all add: create_particle_shape)
    from "1.IH" [OF lt le "1.prems"(2) l] show ?thesis
      unfolding unf e1 e4 .
  qed
qed

lemma createParticles_shape:
  "length (positions (fst (createParticles rnd k))) = 1200"
  "length (velocities (fst (createParticles rnd k))) = 1200"
  "well_shaped (fst (createParticles rnd k))"
  using create_loop_shape [of rnd 400 0]
  by (simp_all add: createParticles_def Let_def well_shaped_def)

lemma createParticles_y:
  "j < 400 \<Longrightarrow>
     positions (fst (createParticles rnd k)) ! (3 * j + 1) = rnd (k + 8 * j + 1) * 30 - 15
   \<and> velocities (fst (createParticles rnd k)) ! (3 * j + 1) = rnd (k + 8 * j + 4) * (3 / 100) + 1 / 100"
  using create_loop_y [of 0 j 400 _ rnd]
  by (simp add: createParticles_def Let_def)

text \<open>
  Claim C7. After any number of frames on the particle set that \<^verbatim>\<open>createParticles\<close>
  built, every frame has a result and the velocity, size and colour arrays are the ones
  of creation: the update writes the position array only (and the time uniform and the
  update flag).
\<close>

theorem frames_keep_other_arrays:
  "\<exists>ps' k'. frames rnd es (Particles (fst (createParticles rnd k0)), snd (createParticles rnd k0))
               = Some (Particles ps', k')
     \<and> velocities ps' = velocities (fst (createParticles rnd k0))
     \<and> sizes ps' = sizes (fst (createParticles rnd k0))
     \<and> colors ps' = colors (fst (createParticles rnd k0))"
proof -
  have shape: "well_shaped (fst (createParticles rnd k0))"
    by (rule createParticles_shape)
  show ?thesis
    using shape by (rule frames_keep_arrays)
qed

subsection \<open>The lower bound of the height\<close>

text \<open>
  While the pointer stays low enough in the window for the parallax to take 0.12 per frame,
  a particle that rises by at most 0.04 per frame loses at least 0.08 of height in every
  frame, and nothing stops it at \<open>-15\<close>. From creation, whatever the random source,
  400 such frames put every particle below the box.
\<close>

lemma frames_sink:
  assumes "well_shaped ps" and "i mod 3 = 0" and "i < length (positions ps)"
    and "list_all (\<lambda>e. 12 / 100 \<le> (mouse_y e - innerHeight e / 2) * (3 / 10000)) es"
    and "velocities ps ! (i + 1) \<le> 4 / 100" and "positions ps ! (i + 1) \<le> 15"
  shows "\<exists>ps' k'. frames rnd es (Particles ps, k) = Some (Particles ps', k')
           \<and> positions ps' ! (i + 1) \<le> positions ps ! (i + 1) - (8 / 100) * real (length es)"
  using assms
proof (induction es arbitrary: ps k)
  case Nil
  then show ?case by simp
next
  case (Cons e es)
  from animateParticles_total [OF Cons.prems(1), of e rnd k] obtain ps1 k1 where
    s: "animateParticles e rnd (Particles ps, k) = Some (Particles ps1, k1)"
    and v: "velocities ps1 = velocities ps" and w: "well_shaped ps1"
    by blast
  have len: "length (positions ps1) = length (positions ps)"
    using w v Cons.prems(1) by (simp add: well_shaped_def)
  have low: "12 / 100 \<le> (mouse_y e - innerHeight e / 2) * (3 / 10000)"
    and rest: "list_all (\<lambda>e. 12 / 100 \<le> (mouse_y e - innerHeight e / 2) * (3 / 10000)) es"
    using Cons.prems(4) by simp_all
  have y: "positions ps ! (i + 1) + velocities ps ! (i + 1)
              - (mouse_y e - innerHeight e / 2) * (3 / 10000) \<le> 15"
    using low Cons.prems(5,6) by linarith
  note y1 = animateParticles_y [OF s Cons.prems(2) Cons.prems(3) y]
  have d: "positions ps1 ! (i + 1) \<le> positions ps ! (i + 1) - 8 / 100"
    using y1 low Cons.prems(5) by linarith
  have i1: "i < length (positions ps1)" using len Cons.prems(3) by simp
  have v1: "velocities ps1 ! (i + 1) \<le> 4 / 100" using v Cons.prems(5) by simp
  have p1: "positions ps1 ! (i + 1) \<le> 15" using d Cons.prems(6) by linarith
  from Cons.IH [OF w Cons.prems(2) i1 rest v1 p1, of k1] obtain ps' k' where
    f: "frames rnd es (Particles ps1, k1) = Some (Particles ps', k')"
    and b: "positions ps' ! (i + 1) \<le> positions ps1 ! (i + 1) - (8 / 100) * real (length es)"
    by blast
  have "real (length (e # es)) = real (length es) + 1" by simp
  then have "positions ps' ! (i + 1) \<le> positions ps ! (i + 1) - (8 / 100) * real (length (e # es))"
    using b d by (simp only: distrib_left)
  then show ?case using s f by simp
qed

lemma field_sinks:
  assumes "\<And>j. rnd j < 1" and "length es = 400"
    and "list_all (\<lambda>e. 12 / 100 \<le> (mouse_y e - innerHeight e / 2) * (3 / 10000)) es"
    and "m < 400"
  shows "\<exists>ps' k'. frames rnd es (Particles (fst (createParticles rnd k0)), snd (createParticles rnd k0))
                = Some (Particles ps', k')
           \<and> positions ps' ! (3 * m + 1) < - 15"
proof -
  let ?ps = "fst (createParticles rnd k0)"
  have c: "positions ?ps ! (3 * m + 1) = rnd (k0 + 8 * m + 1) * 30 - 15"
    "velocities ?ps ! (3 * m + 1) = rnd (k0 + 8 * m + 4) * (3 / 100) + 1 / 100"
    using createParticles_y [OF assms(4), of rnd k0] by simp_all
  have r: "rnd (k0 + 8 * m + 1) < 1" "rnd (k0 + 8 * m + 4) < 1" by (rule assms(1))+
  have i: "(3 * m) mod 3 = 0" "3 * m < length (positions ?ps)"
    using assms(4) by (simp_all add: createParticles_shape)
  have v: "velocities ?ps ! (3 * m + 1) \<le> 4 / 100" using c r by simp
  have p: "positions ?ps ! (3 * m + 1) \<le> 15" using c r by simp
  from frames_sink [OF createParticles_shape(3) i assms(3) v p, of rnd "snd (createParticles rnd k0)"]
  obtain ps' k' where
    f: "frames rnd es (Particles ?ps, snd (createParticles rnd k0)) = Some (Particles ps', k')"
    and b: "positions ps' ! (3 * m + 1) \<le> positions ?ps ! (3 * m + 1) - (8 / 100) * real (length es)"
    by blast
  have "positions ps' ! (3 * m + 1) < - 15" using b p assms(2) by simp
  then show ?thesis using f by blast
qed

text \<open>
  Claim C1 says that every position stays in its box, in particular \<open>y \<ge> -15\<close>. The
  loop wraps \<open>x\<close> and \<open>z\<close> on both sides (see \<open>animateParticles_bounds\<close>) but
  \<open>y\<close> only above 15, and the pointer's parallax can outweigh the upward velocity.
  On the field created from a random source that always returns 0.001, the first particle
  starts at \<open>y = -14.97\<close>; one frame with the pointer at 900 of 1000 pixels of height
  leaves it at \<open>y = -15.07997\<close>, below the box, whatever the time. Lemma
  \<open>field_sinks\<close> shows the same for every random source after 400 such frames.
\<close>

theorem particle_sinks_below_bound:
  "\<exists>ps' k'. animateParticles (pointer_low now) rnd_small
               (Particles (fst (createParticles rnd_small 0)), snd (createParticles rnd_small 0))
             = Some (Particles ps', k')
     \<and> positions (fst (createParticles rnd_small 0)) ! 1 = - (1497 / 100)
     \<and> positions ps' ! 1 = - (1507997 / 100000)
     \<and> positions ps' ! 1 < - 15"
proof -
  let ?ps = "fst (createParticles rnd_small 0)"
  from animateParticles_total [OF createParticles_shape(3), where e = "pointer_low now"
      and rnd = rnd_small and k = "snd (createParticles rnd_small 0)" and ?rnd1 = rnd_small and ?k1 = 0]
  obtain ps' k' where r: "animateParticles (pointer_low now) rnd_small
               (Particles ?ps, snd (createParticles rnd_small 0)) = Some (Particles ps', k')"
    by blast
  have c: "positions ?ps ! 1 = - (1497 / 100)" "velocities ?ps ! 1 = 1003 / 100000"
    using createParticles_y [of 0 rnd_small 0] by (simp_all add: rnd_small_def)
  have i: "(0::nat) mod 3 = 0" "0 < length (positions ?ps)"
    by (simp_all add: createParticles_shape)
  have y: "positions ?ps ! (0 + 1) + velocities ?ps ! (0 + 1)
              - (mouse_y (pointer_low now) - innerHeight (pointer_low now) / 2) * (3 / 10000) \<le> 15"
    using c by (simp add: pointer_low_def)
  from animateParticles_y [OF r i y]
  have "positions ps' ! 1 = - (1507997 / 100000)"
    using c by (simp add: pointer_low_def)
  then show ?thesis using r c by simp
qed

subsection \<open>The phase of the drift\<close>

text \<open>
  Claim C3, amended. In a frame, for the particle number \<open>m\<close> whose cells start at
  index \<open>3 * m\<close> of the position array, when no wrap applies: the new \<open>x\<close> is the old
  one plus its velocity, plus the drift \<open>sin (t + 3 * m * 0.01) * 0.01\<close>, plus the
  parallax; the new \<open>z\<close> is the old one plus its velocity plus the drift
  \<open>cos (t + 3 * m * 0.015) * 0.008\<close>. Here \<open>t\<close> is \<^verbatim>\<open>Date.now()\<close> in seconds. The
  phase depends on the particle's index in the array, not on its coordinates.
\<close>

theorem drift_phase_is_cell_index:
  assumes "well_shaped ps" and "3 * m < length (positions ps)"
    and "positions ps ! (3 * m + 1) + velocities ps ! (3 * m + 1)
              - (mouse_y e - innerHeight e / 2) * (3 / 10000) \<le> 15"
    and "- 20 \<le> positions ps ! (3 * m) + velocities ps ! (3 * m)
                 + sin (now_ms e * (1 / 1000) + real (3 * m) * (1 / 100)) * (1 / 100)
                 + (mouse_x e - innerWidth e / 2) * (3 / 10000)"
    and "positions ps ! (3 * m) + velocities ps ! (3 * m)
                 + sin (now_ms e * (1 / 1000) + real (3 * m) * (1 / 100)) * (1 / 100)
                 + (mouse_x e - innerWidth e / 2) * (3 / 10000) \<le> 20"
    and "- 10 \<le> positions ps ! (3 * m + 2) + velocities ps ! (3 * m + 2)
                 + cos (now_ms e * (1 / 1000) + real (3 * m) * (15 / 1000)) * (8 / 1000)"
    and "positions ps ! (3 * m + 2) + velocities ps ! (3 * m + 2)
                 + cos (now_ms e * (1 / 1000) + real (3 * m) * (15 / 1000)) * (8 / 1000) \<le> 10"
  shows "\<exists>ps' k'. animateParticles e rnd (Particles ps, k) = Some (Particles ps', k')
     \<and> positions ps' ! (3 * m) =
           positions ps ! (3 * m) + velocities ps ! (3 * m)
             + sin (now_ms e * (1 / 1000) + real (3 * m) * (1 / 100)) * (1 / 100)
             + (mouse_x e - innerWidth e / 2) * (3 / 10000)
     \<and> positions ps' ! (3 * m + 2) =
           positions ps ! (3 * m + 2) + velocities ps ! (3 * m + 2)
             + cos (now_ms e * (1 / 1000) + real (3 * m) * (15 / 1000)) * (8 / 1000)"
proof -
  from animateParticles_total [OF assms(1)] obtain ps' k' where
    r: "animateParticles e rnd (Particles ps, k) = Some (Particles ps', k')"
    by blast
  have i: "(3 * m) mod 3 = 0" by simp
  note x = animateParticles_x [OF r i assms(2) assms(3) assms(4) assms(5)]
  note z = animateParticles_z [OF r i assms(2) assms(3) assms(6) assms(7)]
  show ?thesis using r x z by blast
qed

lemma two_particles_shape: "well_shaped two_particles"
  by (simp add: well_shaped_def two_particles_def)

theorem drift_phase_is_cell_index_witness:
  "\<exists>ps' k'. animateParticles still_env rnd_small (Particles two_particles, 0) = Some (Particles ps', k')
     \<and> positions ps' ! 3 = 5 + sin (3 / 100) * (1 / 100)
     \<and> positions ps' ! 5 = cos (45 / 1000) * (8 / 1000)"
proof -
  note s = sin_ge_minus_one [of "3 / 100 :: real"] sin_le_one [of "3 / 100 :: real"]
  note c = cos_ge_minus_one [of "9 / 200 :: real"] cos_le_one [of "9 / 200 :: real"]
  have h2: "3 * 1 < length (positions two_particles)"
    by (simp add: two_particles_def)
  have h3: "positions two_particles ! (3 * 1 + 1) + velocities two_particles ! (3 * 1 + 1)
              - (mouse_y still_env - innerHeight still_env / 2) * (3 / 10000) \<le> 15"
    by (simp add: two_particles_def still_env_def)
  have h4: "- 20 \<le> positions two_particles ! (3 * 1) + velocities two_particles ! (3 * 1)
                 + sin (now_ms still_env * (1 / 1000) + real (3 * 1) * (1 / 100)) * (1 / 100)
                 + (mouse_x still_env - innerWidth still_env / 2) * (3 / 10000)"
    by (simp add: two_particles_def still_env_def) (use s in linarith)
  have h5: "positions two_particles ! (3 * 1) + velocities two_particles ! (3 * 1)
                 + sin (now_ms still_env * (1 / 1000) + real (3 * 1) * (1 / 100)) * (1 / 100)
                 + (mouse_x still_env - innerWidth still_env / 2) * (3 / 10000) \<le> 20"
    by (simp add: two_particles_def still_env_def) (use s in linarith)
  have h6: "- 10 \<le> positions two_particles ! (3 * 1 + 2) + velocities two_particles ! (3 * 1 + 2)
                 + cos (now_ms still_env * (1 / 1000) + real (3 * 1) * (15 / 1000)) * (8 / 1000)"
    by (simp add: two_particles_def still_env_def) (use c in linarith)
  have h7: "positions two_particles ! (3 * 1 + 2) + velocities two_particles ! (3 * 1 + 2)
                 + cos (now_ms still_env * (1 / 1000) + real (3 * 1) * (15 / 1000)) * (8 / 1000) \<le> 10"
    by (simp add: two_particles_def still_env_def) (use c in linarith)
  from drift_phase_is_cell_index [OF two_particles_shape h2 h3 h4 h5 h6 h7, of rnd_small 0]
  show ?thesis by (simp add: two_particles_def still_env_def)
qed

text \<open>
  Claim C3 as stated fails. At time 0 with the pointer at the centre, the first of two
  particles, at height 10, gets no drift in \<open>x\<close> (its phase is \<open>0 + 0 * 0.01\<close>),
  while a phase built from its height, before or after the velocity is added, would give
  a positive drift.
\<close>

theorem drift_phase_counterexample:
  "positions_of (animateParticles still_env rnd_small (Particles two_particles, 0)) ! 0 = 0
   \<and> positions_of (animateParticles still_env rnd_small (Particles two_particles, 0)) ! 0 \<noteq>
       positions two_particles ! 0 + velocities two_particles ! 0
         + sin (now_ms still_env * (1 / 1000) + positions two_particles ! 1 * (1 / 100)) * (1 / 100)
         + (mouse_x still_env - innerWidth still_env / 2) * (3 / 10000)
   \<and> positions_of (animateParticles still_env rnd_small (Particles two_particles, 0)) ! 0 \<noteq>
       positions two_particles ! 0 + velocities two_particles ! 0
         + sin (now_ms still_env * (1 / 1000)
                + (positions two_particles ! 1 + velocities two_particles ! 1) * (1 / 100)) * (1 / 100)
         + (mouse_x still_env - innerWidth still_env / 2) * (3 / 10000)"
proof -
  from animateParticles_total [OF two_particles_shape] obtain ps' k' where
    r: "animateParticles still_env rnd_small (Particles two_particles, 0) = Some (Particles ps', k')"
    by blast
  have i: "(0::nat) mod 3 = 0" "0 < length (positions two_particles)"
    by (simp_all add: two_particles_def)
  have "positions ps' ! 0 =
           positions two_particles ! 0 + velocities two_particles ! 0
                 + sin (now_ms still_env * (1 / 1000) + real 0 * (1 / 100)) * (1 / 100)
                 + (mouse_x still_env - innerWidth still_env / 2) * (3 / 10000)"
    by (rule animateParticles_x [OF r i]) (simp_all add: two_particles_def still_env_def)
  then have x: "positions ps' ! 0 = 0"
    by (simp add: two_particles_def still_env_def)
  have "0 < sin (1 / 10 :: real)" "0 < sin (1001 / 10000 :: real)"
    by (rule sin_gt_zero_02; simp)+
  then show ?thesis
    using r x by (simp add: two_particles_def still_env_def)
qed

section \<open>Results on the animation loop\<close>

lemma animate_hidden: "hidden a \<Longrightarrow> animate a = a"
  by (simp add: animate_def)

lemma handle_inv: "loop_inv a \<Longrightarrow> loop_inv (handle ev a)"
proof (cases ev)
  case Frame
  assume "loop_inv a"
  then show ?thesis using Frame
    by (cases "scheduled a"; cases "tl (scheduled a)")
       (auto simp: loop_inv_def animate_def)
next
  case (SetHidden b)
  assume "loop_inv a"
  then show ?thesis using SetHidden
    by (auto simp: loop_inv_def on_visibilitychange_def startAnimation_def animate_def)
qed

lemma run_inv: "loop_inv a \<Longrightarrow> loop_inv (run evs a)"
  by (induction evs arbitrary: a) (simp_all add: handle_inv)

lemma at_most_one_loop: "length (scheduled (run evs (page_load h))) \<le> 1"
proof -
  have "loop_inv (page_load h)"
    by (simp add: loop_inv_def page_load_def startAnimation_def animate_def)
  then have "loop_inv (run evs (page_load h))" by (rule run_inv)
  then show ?thesis by (simp add: loop_inv_def)
qed

lemma hidden_never_schedules:
  "hidden a \<Longrightarrow> scheduled (handle Frame a) = [] \<and> frames_drawn (handle Frame a) = frames_drawn a"
proof -
  assume h: "hidden a"
  have "\<And>b. hidden b \<Longrightarrow> run_callbacks hs b = b" for hs
    by (induction hs) (simp_all add: animate_hidden)
  then show ?thesis using h by simp
qed

lemma handle_dead:
  "scheduled a = [] \<Longrightarrow> \<not> no_animationId (animationId a) \<Longrightarrow>
     scheduled (handle ev a) = [] \<and> animationId (handle ev a) = animationId a
     \<and> frames_drawn (handle ev a) = frames_drawn a"
  by (cases ev) (simp_all add: on_visibilitychange_def)

lemma run_dead:
  "scheduled a = [] \<Longrightarrow> \<not> no_animationId (animationId a) \<Longrightarrow>
     scheduled (run evs a) = [] \<and> frames_drawn (run evs a) = frames_drawn a"
proof (induction evs arbitrary: a)
  case Nil
  then show ?case by simp
next
  case (Cons ev evs)
  from handle_dead [OF Cons.prems, of ev]
  have "scheduled (handle ev a) = []" "\<not> no_animationId (animationId (handle ev a))"
    "frames_drawn (handle ev a) = frames_drawn a"
    using Cons.prems by simp_all
  with Cons.IH [of "handle ev a"] show ?case by simp
qed

lemma suspended_state:
  "run [SetHidden True, Frame, SetHidden False] (page_load False) =
     \<lparr> hidden = False, animationId = Some 1, scheduled = [], next_handle = 2, frames_drawn = 1 \<rparr>"
  by (simp add: page_load_def startAnimation_def animate_def on_visibilitychange_def)

text \<open>
  Claim C4 says that a suspended loop restarts when the page becomes visible again. The
  first two parts hold: a frame on a hidden page schedules nothing
  (\<open>hidden_never_schedules\<close>) and at most one callback ever waits
  (\<open>at_most_one_loop\<close>). The restart fails: after a page loaded visible is hidden and
  a frame has run, nothing is scheduled, and \<^verbatim>\<open>state.animationId\<close> still holds handle
  1. The handler of the return to visibility therefore does not call
  \<^verbatim>\<open>startAnimation\<close>, and whatever events follow, nothing is scheduled and no frame
  is drawn again.
\<close>

theorem loop_not_restarted:
  "scheduled (run [SetHidden True] (page_load False)) = [1]
   \<and> scheduled (run [SetHidden True, Frame] (page_load False)) = []
   \<and> \<not> hidden (run [SetHidden True, Frame, SetHidden False] (page_load False))
   \<and> scheduled (run ([SetHidden True, Frame, SetHidden False] @ evs) (page_load False)) = []
   \<and> frames_drawn (run ([SetHidden True, Frame, SetHidden False] @ evs) (page_load False)) = 1"
proof -
  have app: "run (xs @ ys) a = run ys (run xs a)" for xs ys a
    by (induction xs arbitrary: a) simp_all
  have a: "scheduled (run [SetHidden True] (page_load False)) = [1]"
    "scheduled (run [SetHidden True, Frame] (page_load False)) = []"
    by (simp_all add: page_load_def startAnimation_def animate_def on_visibilitychange_def)
  let ?d = "run [SetHidden True, Frame, SetHidden False] (page_load False)"
  have d: "scheduled ?d = []" "\<not> no_animationId (animationId ?d)" "\<not> hidden ?d"
    "frames_drawn ?d = 1"
    unfolding suspended_state by simp_all
  from run_dead [OF d(1) d(2), of evs] show ?thesis
    using a d by (simp add: app)
qed

end
